theory Spec2Isabelle
  imports Main "HOL-Library.Word"
begin

section \<open>Error values and panics\<close>

text \<open>
  A Go \<open>error\<close> is an interface value; \<open>nil\<close> is \<open>None\<close> of an option. Two error types are
  built by the code under study: \<open>&interfaceError{msg: ...}\<close> and \<open>&wrappedManyError{msg, errs}\<close>.
  Every other error value (network errors, errors made by \<open>errorFromCode\<close>, ...) is produced
  by collaborators and is kept abstract in \<open>otherError\<close>.
\<close>

datatype 'x error =
    interfaceError string
  | wrappedManyError string "'x error list"
  | otherError 'x

text \<open>The values the code panics with.\<close>

datatype panic =
    UnexpectedReason string
  | NotBorrowed
  | AtoiError string
  | IndexOutOfRange int nat
  | SliceOutOfRange int nat

text \<open>A call either returns or panics; the receiver's state after the call is kept in both cases.\<close>

datatype 'a outcome = Panic panic | Return 'a

section \<open>Borrow guard (borrow.go)\<close>

record 'b borrowableConn =
  baseConn :: 'b
  reason :: string

definition borrowedForTransaction :: string where
  "borrowedForTransaction =
     ''The connection is borrowed for a transaction. '' @
     ''Use the methods on the transaction object instead.''"

definition borrowedForSubtransaction :: string where
  "borrowedForSubtransaction =
     ''The transaction is borrowed for a subtransaction. '' @
     ''Use the methods on the subtransaction object instead.''"

text \<open>
  \<open>borrow\<close> returns \<open>(*baseConn, error)\<close>: the pair of an optional connection and an optional
  error, together with the receiver after the call.
\<close>

definition borrow ::
  "'b borrowableConn \<Rightarrow> string \<Rightarrow> ('b option \<times> 'x error option) outcome \<times> 'b borrowableConn" where
  "borrow c r =
     (if reason c = '''' then
        (if r = ''transaction'' \<or> r = ''subtransaction''
         then (Return (Some (baseConn c), None), c\<lparr>reason := r\<rparr>)
         else (Panic (UnexpectedReason r), c))
      else if reason c = ''transaction'' then
        (Return (None, Some (interfaceError borrowedForTransaction)), c)
      else if reason c = ''subtransaction'' then
        (Return (None, Some (interfaceError borrowedForSubtransaction)), c)
      else (Panic (UnexpectedReason (reason c)), c))"

definition unborrow :: "'b borrowableConn \<Rightarrow> unit outcome \<times> 'b borrowableConn" where
  "unborrow c =
     (if reason c = '''' then (Panic NotBorrowed, c)
      else (Return (), c\<lparr>reason := ''''\<rparr>))"

definition assertUnborrowed ::
  "'b borrowableConn \<Rightarrow> 'x error option outcome \<times> 'b borrowableConn" where
  "assertUnborrowed c =
     (if reason c = '''' then (Return None, c)
      else if reason c = ''transaction'' then
        (Return (Some (interfaceError borrowedForTransaction)), c)
      else if reason c = ''subtransaction'' then
        (Return (Some (interfaceError borrowedForSubtransaction)), c)
      else (Panic (UnexpectedReason (reason c)), c))"

text \<open>
  The flows of the embedded \<open>baseConn\<close> are collaborators: a flow takes the base connection,
  the query and the state of the outside world (the network), and returns an error and the new
  world. The facade's flow returns its error, the receiver and the world after the call.
\<close>

type_synonym ('b, 'q, 'x, 'w) flow = "'b \<Rightarrow> 'q \<Rightarrow> 'w \<Rightarrow> 'x error option \<times> 'w"

definition scriptFlow ::
  "('b, 'q, 'x, 'w) flow \<Rightarrow> 'b borrowableConn \<Rightarrow> 'q \<Rightarrow> 'w \<Rightarrow>
     'x error option outcome \<times> 'b borrowableConn \<times> 'w" where
  "scriptFlow base_scriptFlow c q w =
     (case assertUnborrowed c of
        (Panic p, c') \<Rightarrow> (Panic p, c', w)
      | (Return (Some e), c') \<Rightarrow> (Return (Some e), c', w)
      | (Return None, c') \<Rightarrow>
          (case base_scriptFlow (baseConn c') q w of (r, w') \<Rightarrow> (Return r, c', w')))"

definition granularFlow ::
  "('b, 'q, 'x, 'w) flow \<Rightarrow> 'b borrowableConn \<Rightarrow> 'q \<Rightarrow> 'w \<Rightarrow>
     'x error option outcome \<times> 'b borrowableConn \<times> 'w" where
  "granularFlow base_granularFlow c q w =
     (case assertUnborrowed c of
        (Panic p, c') \<Rightarrow> (Panic p, c', w)
      | (Return (Some e), c') \<Rightarrow> (Return (Some e), c', w)
      | (Return None, c') \<Rightarrow>
          (case base_granularFlow (baseConn c') q w of (r, w') \<Rightarrow> (Return r, c', w')))"

text \<open>
  \<open>Execute\<close> builds the script query from the command and the connection's headers; the
  header set (\<open>header.AllowCapabilities: noTxCapabilities\<close>) is made of constants declared
  outside these files and is the parameter \<open>hdrs\<close>.
\<close>

record 'h sfQuery =
  sf_cmd :: string
  sf_headers :: 'h

definition borrowableConn_Execute ::
  "('b, 'h sfQuery, 'x, 'w) flow \<Rightarrow> 'h \<Rightarrow> 'b borrowableConn \<Rightarrow> string \<Rightarrow> 'w \<Rightarrow>
     'x error option outcome \<times> 'b borrowableConn \<times> 'w" where
  "borrowableConn_Execute base_scriptFlow hdrs c cmd w =
     scriptFlow base_scriptFlow c \<lparr>sf_cmd = cmd, sf_headers = hdrs\<rparr> w"

text \<open>
  Modelled from the spec: \<open>runQuery\<close>, which \<open>Query\<close>, \<open>QueryOne\<close>, \<open>QueryJSON\<close> and
  \<open>QueryOneJSON\<close> call, is not among the source files. The spec (Connection Facade) says each
  call asserts that the connection is unborrowed and otherwise routes to the granular flow for
  operations that decode a result. The construction of the granular query from the method name,
  the command, the destination, the arguments and the headers is the parameter \<open>newQuery\<close>.
\<close>

definition runQuery ::
  "('b, 'q, 'x, 'w) flow \<Rightarrow> (string \<Rightarrow> string \<Rightarrow> 'o \<Rightarrow> 'a list \<Rightarrow> 'h \<Rightarrow> 'q) \<Rightarrow> 'h \<Rightarrow>
     'b borrowableConn \<Rightarrow> string \<Rightarrow> string \<Rightarrow> 'o \<Rightarrow> 'a list \<Rightarrow> 'w \<Rightarrow>
     'x error option outcome \<times> 'b borrowableConn \<times> 'w" where
  "runQuery base_granularFlow newQuery hdrs c method cmd out args w =
     granularFlow base_granularFlow c (newQuery method cmd out args hdrs) w"

definition borrowableConn_Query ::
  "('b, 'q, 'x, 'w) flow \<Rightarrow> (string \<Rightarrow> string \<Rightarrow> 'o \<Rightarrow> 'a list \<Rightarrow> 'h \<Rightarrow> 'q) \<Rightarrow> 'h \<Rightarrow>
     'b borrowableConn \<Rightarrow> string \<Rightarrow> 'o \<Rightarrow> 'a list \<Rightarrow> 'w \<Rightarrow>
     'x error option outcome \<times> 'b borrowableConn \<times> 'w" where
  "borrowableConn_Query gf nq hdrs c cmd out args w = runQuery gf nq hdrs c ''Query'' cmd out args w"

definition borrowableConn_QueryOne ::
  "('b, 'q, 'x, 'w) flow \<Rightarrow> (string \<Rightarrow> string \<Rightarrow> 'o \<Rightarrow> 'a list \<Rightarrow> 'h \<Rightarrow> 'q) \<Rightarrow> 'h \<Rightarrow>
     'b borrowableConn \<Rightarrow> string \<Rightarrow> 'o \<Rightarrow> 'a list \<Rightarrow> 'w \<Rightarrow>
     'x error option outcome \<times> 'b borrowableConn \<times> 'w" where
  "borrowableConn_QueryOne gf nq hdrs c cmd out args w =
     runQuery gf nq hdrs c ''QueryOne'' cmd out args w"

definition borrowableConn_QueryJSON ::
  "('b, 'q, 'x, 'w) flow \<Rightarrow> (string \<Rightarrow> string \<Rightarrow> 'o \<Rightarrow> 'a list \<Rightarrow> 'h \<Rightarrow> 'q) \<Rightarrow> 'h \<Rightarrow>
     'b borrowableConn \<Rightarrow> string \<Rightarrow> 'o \<Rightarrow> 'a list \<Rightarrow> 'w \<Rightarrow>
     'x error option outcome \<times> 'b borrowableConn \<times> 'w" where
  "borrowableConn_QueryJSON gf nq hdrs c cmd out args w =
     runQuery gf nq hdrs c ''QueryJSON'' cmd out args w"

definition borrowableConn_QueryOneJSON ::
  "('b, 'q, 'x, 'w) flow \<Rightarrow> (string \<Rightarrow> string \<Rightarrow> 'o \<Rightarrow> 'a list \<Rightarrow> 'h \<Rightarrow> 'q) \<Rightarrow> 'h \<Rightarrow>
     'b borrowableConn \<Rightarrow> string \<Rightarrow> 'o \<Rightarrow> 'a list \<Rightarrow> 'w \<Rightarrow>
     'x error option outcome \<times> 'b borrowableConn \<times> 'w" where
  "borrowableConn_QueryOneJSON gf nq hdrs c cmd out args w =
     runQuery gf nq hdrs c ''QueryOneJSON'' cmd out args w"

section \<open>Pool handle\<close>

record ('p, 'c, 'x) poolConn =
  pool :: "'p option"
  err :: "'x error option"
  conn :: "'c option"

text \<open>
  The pool's release routine is a collaborator: it takes the pool, the connection, the health
  error and the world (the pool's own state), and returns an error and the new world.
\<close>

definition Release ::
  "('p \<Rightarrow> 'c option \<Rightarrow> 'x error option \<Rightarrow> 'w \<Rightarrow> 'x error option \<times> 'w) \<Rightarrow>
     ('p, 'c, 'x) poolConn \<Rightarrow> 'w \<Rightarrow> 'x error option \<times> ('p, 'c, 'x) poolConn \<times> 'w" where
  "Release pool_release c w =
     (case pool c of
        None \<Rightarrow> (Some (interfaceError ''connection released more than once''), c, w)
      | Some p \<Rightarrow>
          (case pool_release p (conn c) (err c) w of
             (e, w') \<Rightarrow> (e, c\<lparr>pool := None, conn := None, err := None\<rparr>, w')))"

text \<open>
  The classifiers \<open>checkErr\<close> consults are collaborators: \<open>soc.IsPermanentNetErr\<close>, the
  search \<open>errors.As(err, &edbErr)\<close> for an \<open>Error\<close> in the chain of a non-nil error, the
  \<open>Category\<close> method of what it finds, and the constant \<open>UnexpectedMessageError\<close>.
  \<open>errors.As\<close> of a nil error is false.
\<close>

record ('x, 'e) classifiers =
  IsPermanentNetErr :: "'x error option \<Rightarrow> bool"
  AsError :: "'x error \<Rightarrow> 'e option"
  Category :: "'e \<Rightarrow> string \<Rightarrow> bool"
  UnexpectedMessageError :: string

definition errors_As_Error :: "('x, 'e) classifiers \<Rightarrow> 'x error option \<Rightarrow> 'e option" where
  "errors_As_Error K e = (case e of None \<Rightarrow> None | Some x \<Rightarrow> AsError K x)"

definition checkErr ::
  "('x, 'e) classifiers \<Rightarrow> ('p, 'c, 'x) poolConn \<Rightarrow> 'x error option \<Rightarrow> ('p, 'c, 'x) poolConn" where
  "checkErr K c e =
     (if IsPermanentNetErr K e then c\<lparr>err := e\<rparr>
      else (case errors_As_Error K e of
              Some edbErr \<Rightarrow>
                if Category K edbErr (UnexpectedMessageError K) then c\<lparr>err := e\<rparr> else c
            | None \<Rightarrow> c))"

text \<open>
  The methods of the wrapped connection are collaborators too: each takes the connection, its
  arguments and the world, and returns an error and the new world.
\<close>

record ('c, 'o, 'a, 'act, 'x, 'w) connMethods =
  conn_Execute :: "'c option \<Rightarrow> string \<Rightarrow> 'w \<Rightarrow> 'x error option \<times> 'w"
  conn_Query :: "'c option \<Rightarrow> string \<Rightarrow> 'o \<Rightarrow> 'a list \<Rightarrow> 'w \<Rightarrow> 'x error option \<times> 'w"
  conn_QueryOne :: "'c option \<Rightarrow> string \<Rightarrow> 'o \<Rightarrow> 'a list \<Rightarrow> 'w \<Rightarrow> 'x error option \<times> 'w"
  conn_QueryJSON :: "'c option \<Rightarrow> string \<Rightarrow> 'o \<Rightarrow> 'a list \<Rightarrow> 'w \<Rightarrow> 'x error option \<times> 'w"
  conn_QueryOneJSON :: "'c option \<Rightarrow> string \<Rightarrow> 'o \<Rightarrow> 'a list \<Rightarrow> 'w \<Rightarrow> 'x error option \<times> 'w"
  conn_TryTx :: "'c option \<Rightarrow> 'act \<Rightarrow> 'w \<Rightarrow> 'x error option \<times> 'w"
  conn_Retry :: "'c option \<Rightarrow> 'act \<Rightarrow> 'w \<Rightarrow> 'x error option \<times> 'w"

definition poolConn_Execute ::
  "('x, 'e) classifiers \<Rightarrow> ('c, 'o, 'a, 'act, 'x, 'w) connMethods \<Rightarrow> ('p, 'c, 'x) poolConn \<Rightarrow>
     string \<Rightarrow> 'w \<Rightarrow> 'x error option \<times> ('p, 'c, 'x) poolConn \<times> 'w" where
  "poolConn_Execute K M c cmd w =
     (case conn_Execute M (conn c) cmd w of (e, w') \<Rightarrow> (e, checkErr K c e, w'))"

definition poolConn_Query ::
  "('x, 'e) classifiers \<Rightarrow> ('c, 'o, 'a, 'act, 'x, 'w) connMethods \<Rightarrow> ('p, 'c, 'x) poolConn \<Rightarrow>
     string \<Rightarrow> 'o \<Rightarrow> 'a list \<Rightarrow> 'w \<Rightarrow> 'x error option \<times> ('p, 'c, 'x) poolConn \<times> 'w" where
  "poolConn_Query K M c cmd out args w =
     (case conn_Query M (conn c) cmd out args w of (e, w') \<Rightarrow> (e, checkErr K c e, w'))"

definition poolConn_QueryOne ::
  "('x, 'e) classifiers \<Rightarrow> ('c, 'o, 'a, 'act, 'x, 'w) connMethods \<Rightarrow> ('p, 'c, 'x) poolConn \<Rightarrow>
     string \<Rightarrow> 'o \<Rightarrow> 'a list \<Rightarrow> 'w \<Rightarrow> 'x error option \<times> ('p, 'c, 'x) poolConn \<times> 'w" where
  "poolConn_QueryOne K M c cmd out args w =
     (case conn_QueryOne M (conn c) cmd out args w of (e, w') \<Rightarrow> (e, checkErr K c e, w'))"

definition poolConn_QueryJSON ::
  "('x, 'e) classifiers \<Rightarrow> ('c, 'o, 'a, 'act, 'x, 'w) connMethods \<Rightarrow> ('p, 'c, 'x) poolConn \<Rightarrow>
     string \<Rightarrow> 'o \<Rightarrow> 'a list \<Rightarrow> 'w \<Rightarrow> 'x error option \<times> ('p, 'c, 'x) poolConn \<times> 'w" where
  "poolConn_QueryJSON K M c cmd out args w =
     (case conn_QueryJSON M (conn c) cmd out args w of (e, w') \<Rightarrow> (e, checkErr K c e, w'))"

definition poolConn_QueryOneJSON ::
  "('x, 'e) classifiers \<Rightarrow> ('c, 'o, 'a, 'act, 'x, 'w) connMethods \<Rightarrow> ('p, 'c, 'x) poolConn \<Rightarrow>
     string \<Rightarrow> 'o \<Rightarrow> 'a list \<Rightarrow> 'w \<Rightarrow> 'x error option \<times> ('p, 'c, 'x) poolConn \<times> 'w" where
  "poolConn_QueryOneJSON K M c cmd out args w =
     (case conn_QueryOneJSON M (conn c) cmd out args w of (e, w') \<Rightarrow> (e, checkErr K c e, w'))"

definition poolConn_TryTx ::
  "('x, 'e) classifiers \<Rightarrow> ('c, 'o, 'a, 'act, 'x, 'w) connMethods \<Rightarrow> ('p, 'c, 'x) poolConn \<Rightarrow>
     'act \<Rightarrow> 'w \<Rightarrow> 'x error option \<times> ('p, 'c, 'x) poolConn \<times> 'w" where
  "poolConn_TryTx K M c action w =
     (case conn_TryTx M (conn c) action w of (e, w') \<Rightarrow> (e, checkErr K c e, w'))"

definition poolConn_Retry ::
  "('x, 'e) classifiers \<Rightarrow> ('c, 'o, 'a, 'act, 'x, 'w) connMethods \<Rightarrow> ('p, 'c, 'x) poolConn \<Rightarrow>
     'act \<Rightarrow> 'w \<Rightarrow> 'x error option \<times> ('p, 'c, 'x) poolConn \<times> 'w" where
  "poolConn_Retry K M c action w =
     (case conn_Retry M (conn c) action w of (e, w') \<Rightarrow> (e, checkErr K c e, w'))"

text \<open>
  A sequence of operations on one handle: the calls a client makes, run in order. The result
  is the list of the errors the calls returned, the handle and the world at the end.
\<close>

datatype ('o, 'a, 'act) call =
    CallExecute string
  | CallQuery string 'o "'a list"
  | CallQueryOne string 'o "'a list"
  | CallQueryJSON string 'o "'a list"
  | CallQueryOneJSON string 'o "'a list"
  | CallTryTx 'act
  | CallRetry 'act

fun perform ::
  "('x, 'e) classifiers \<Rightarrow> ('c, 'o, 'a, 'act, 'x, 'w) connMethods \<Rightarrow> ('p, 'c, 'x) poolConn \<Rightarrow>
     ('o, 'a, 'act) call \<Rightarrow> 'w \<Rightarrow> 'x error option \<times> ('p, 'c, 'x) poolConn \<times> 'w" where
  "perform K M c (CallExecute cmd) w = poolConn_Execute K M c cmd w"
| "perform K M c (CallQuery cmd out args) w = poolConn_Query K M c cmd out args w"
| "perform K M c (CallQueryOne cmd out args) w = poolConn_QueryOne K M c cmd out args w"
| "perform K M c (CallQueryJSON cmd out args) w = poolConn_QueryJSON K M c cmd out args w"
| "perform K M c (CallQueryOneJSON cmd out args) w = poolConn_QueryOneJSON K M c cmd out args w"
| "perform K M c (CallTryTx action) w = poolConn_TryTx K M c action w"
| "perform K M c (CallRetry action) w = poolConn_Retry K M c action w"

fun performAll ::
  "('x, 'e) classifiers \<Rightarrow> ('c, 'o, 'a, 'act, 'x, 'w) connMethods \<Rightarrow> ('p, 'c, 'x) poolConn \<Rightarrow>
     ('o, 'a, 'act) call list \<Rightarrow> 'w \<Rightarrow> 'x error option list \<times> ('p, 'c, 'x) poolConn \<times> 'w" where
  "performAll K M c [] w = ([], c, w)"
| "performAll K M c (x # xs) w =
     (case perform K M c x w of
        (e, c', w') \<Rightarrow> (case performAll K M c' xs w' of (es, c'', w'') \<Rightarrow> (e # es, c'', w'')))"

text \<open>The errors that \<open>checkErr\<close> records.\<close>

definition impairing :: "('x, 'e) classifiers \<Rightarrow> 'x error option \<Rightarrow> bool" where
  "impairing K e =
     (IsPermanentNetErr K e \<or>
      (case errors_As_Error K e of
         Some edbErr \<Rightarrow> Category K edbErr (UnexpectedMessageError K)
       | None \<Rightarrow> False))"

section \<open>Error model (error.go)\<close>

subsection \<open>Library functions the decoder calls\<close>

text \<open>
  A Go string is a sequence of bytes: \<open>string\<close>, whose characters are bytes. Go's \<open>int\<close> has
  64 bits; \<open>int64\<close> is the wrap-around of a subtraction. The length of a string fits an \<open>int\<close>.
\<close>

definition int64 :: "int \<Rightarrow> int" where
  "int64 x = (x + 2 ^ 63) mod 2 ^ 64 - 2 ^ 63"

definition byte :: "char \<Rightarrow> nat" where
  "byte c = of_char c"

definition newline :: char where
  "newline = CHR 0x0A"

definition tab :: char where
  "tab = CHR 0x09"

text \<open>
  \<open>strconv.Atoi\<close>: an optional sign, then one or more decimal digits and nothing else, of a
  value that fits 64 bits; anything else is an error.
\<close>

definition isDigit :: "char \<Rightarrow> bool" where
  "isDigit c = (48 \<le> byte c \<and> byte c \<le> 57)"

definition digitsValue :: "string \<Rightarrow> int" where
  "digitsValue ds = foldl (\<lambda>n c. 10 * n + (int (byte c) - 48)) 0 ds"

definition strconv_Atoi :: "string \<Rightarrow> int option" where
  "strconv_Atoi s =
     (let (neg, ds) =
        (case s of
           [] \<Rightarrow> (False, [])
         | c # r \<Rightarrow> if c = CHR ''-'' then (True, r) else if c = CHR ''+'' then (False, r)
                    else (False, s))
      in if ds = [] \<or> \<not> list_all isDigit ds then None
         else let v = (if neg then - digitsValue ds else digitsValue ds)
              in if v < - (2 ^ 63) \<or> 2 ^ 63 \<le> v then None else Some v)"

text \<open>\<open>strings.Split(s, "\n")\<close>: the pieces between the newlines, one more than there are newlines.\<close>

fun strings_Split :: "string \<Rightarrow> string list" where
  "strings_Split [] = [[]]"
| "strings_Split (c # cs) =
     (if c = newline then [] # strings_Split cs
      else (case strings_Split cs of l # ls \<Rightarrow> (c # l) # ls | [] \<Rightarrow> [[c]]))"

text \<open>\<open>strings.ReplaceAll(s, "\t", " ")\<close>.\<close>

definition strings_ReplaceAll :: "string \<Rightarrow> string" where
  "strings_ReplaceAll s = map (\<lambda>c. if c = tab then CHR '' '' else c) s"

text \<open>
  \<open>utf8.RuneCountInString\<close>, as the library's loop: \<open>firstByte\<close> is its table \<open>first\<close> (the size
  of the encoding a leading byte announces and the range accepted for the second byte, or
  nothing for an invalid leading byte); \<open>runeWidth\<close> is the number of bytes one turn of the loop
  advances by, which is 1 for an ASCII byte and for every erroneous or short encoding.
\<close>

definition firstByte :: "nat \<Rightarrow> (nat \<times> nat \<times> nat) option" where
  "firstByte b =
     (if 0xC2 \<le> b \<and> b \<le> 0xDF then Some (2, 0x80, 0xBF)
      else if b = 0xE0 then Some (3, 0xA0, 0xBF)
      else if 0xE1 \<le> b \<and> b \<le> 0xEC then Some (3, 0x80, 0xBF)
      else if b = 0xED then Some (3, 0x80, 0x9F)
      else if 0xEE \<le> b \<and> b \<le> 0xEF then Some (3, 0x80, 0xBF)
      else if b = 0xF0 then Some (4, 0x90, 0xBF)
      else if 0xF1 \<le> b \<and> b \<le> 0xF3 then Some (4, 0x80, 0xBF)
      else if b = 0xF4 then Some (4, 0x80, 0x8F)
      else None)"

definition runeWidth :: "char \<Rightarrow> string \<Rightarrow> nat" where
  "runeWidth c rest =
     (if byte c < 0x80 then 1
      else (case firstByte (byte c) of
              None \<Rightarrow> 1
            | Some (n, lo, hi) \<Rightarrow>
                if 1 + length rest < n then 1
                else if byte (rest ! 0) < lo \<or> hi < byte (rest ! 0) then 1
                else if n = 2 then 2
                else if byte (rest ! 1) < 0x80 \<or> 0xBF < byte (rest ! 1) then 1
                else if n = 3 then 3
                else if byte (rest ! 2) < 0x80 \<or> 0xBF < byte (rest ! 2) then 1
                else n))"

fun utf8_RuneCountInString :: "string \<Rightarrow> nat" where
  "utf8_RuneCountInString [] = 0"
| "utf8_RuneCountInString (c # rest) =
     Suc (utf8_RuneCountInString (drop (runeWidth c rest - 1) rest))"

text \<open>The verb \<open>%v\<close> of an \<open>int\<close>: its decimal digits, after a minus sign when negative.\<close>

definition digits :: string where
  "digits = ''0123456789''"

fun decimal :: "nat \<Rightarrow> string" where
  "decimal n =
     (if n < 10 then [digits ! n] else decimal (n div 10) @ [digits ! (n mod 10)])"

declare decimal.simps [simp del]

definition formatInt :: "int \<Rightarrow> string" where
  "formatInt i = (if i < 0 then CHR ''-'' # decimal (nat (- i)) else decimal (nat i))"

subsection \<open>The decoder\<close>

definition hint :: "16 word" where
  "hint = 0x0001"

definition positionStart :: "16 word" where
  "positionStart = 0xfff1"

definition lineStart :: "16 word" where
  "lineStart = 0xfff3"

definition atoiOrPanic :: "string \<Rightarrow> panic + int" where
  "atoiOrPanic s = (case strconv_Atoi s of None \<Rightarrow> Inl (AtoiError s) | Some i \<Rightarrow> Inr i)"

record position =
  lineNo :: int
  byteNo :: int

definition positionFromHeaders :: "(16 word \<rightharpoonup> string) \<Rightarrow> panic + (position \<times> bool)" where
  "positionFromHeaders hs =
     (case hs lineStart of
        None \<Rightarrow> Inr (\<lparr>lineNo = 0, byteNo = 0\<rparr>, False)
      | Some ln \<Rightarrow>
          (case hs positionStart of
             None \<Rightarrow> Inr (\<lparr>lineNo = 0, byteNo = 0\<rparr>, False)
           | Some bn \<Rightarrow>
               (case atoiOrPanic ln of
                  Inl p \<Rightarrow> Inl p
                | Inr l \<Rightarrow>
                    (case atoiOrPanic bn of
                       Inl p \<Rightarrow> Inl p
                     | Inr b \<Rightarrow> Inr (\<lparr>lineNo = int64 (l - 1), byteNo = b\<rparr>, True)))))"

text \<open>
  What \<open>decodeError\<close> reads from the \<open>buff.Reader\<close>, in the order it pops it: the severity byte
  (discarded), the code, the message, and the headers, whose count is the length of the list.
\<close>

record errorResponse =
  severity :: "8 word"
  code :: "32 word"
  msg :: string
  headerList :: "(16 word \<times> string) list"

text \<open>The loop that fills the header map: a later entry for a key replaces an earlier one.\<close>

fun readHeaders :: "(16 word \<times> string) list \<Rightarrow> (16 word \<rightharpoonup> string) \<Rightarrow> (16 word \<rightharpoonup> string)" where
  "readHeaders [] hs = hs"
| "readHeaders ((k, v) # rest) hs = readHeaders rest (hs(k \<mapsto> v))"

text \<open>\<open>fmt.Sprintf("\nquery:%v:%v\n\n%v\n%v^ %v", l, col, line, padding, hintmsg)\<close>.\<close>

definition Sprintf_query :: "int \<Rightarrow> int \<Rightarrow> string \<Rightarrow> string \<Rightarrow> string \<Rightarrow> string" where
  "Sprintf_query l col line padding hintmsg =
     [newline] @ ''query:'' @ formatInt l @ '':'' @ formatInt col @ [newline, newline] @
     line @ [newline] @ padding @ ''^ '' @ hintmsg"

text \<open>
  \<open>errorFromCode\<close> is declared outside these files and is a parameter. Indexing \<open>lines\<close>
  outside its bounds and slicing \<open>line\<close> outside its bounds panic.
\<close>

definition decodeError ::
  "(32 word \<Rightarrow> string \<Rightarrow> 'r) \<Rightarrow> errorResponse \<Rightarrow> string \<Rightarrow> panic + 'r" where
  "decodeError errorFromCode r query =
     (let hs = readHeaders (headerList r) Map.empty in
      case positionFromHeaders hs of
        Inl p \<Rightarrow> Inl p
      | Inr (pos, ok) \<Rightarrow>
          if \<not> ok then Inr (errorFromCode (code r) (msg r))
          else
            let hintmsg = (case hs hint of None \<Rightarrow> ''error'' | Some h \<Rightarrow> h);
                lines = strings_Split query
            in if lineNo pos < 0 \<or> int (length lines) \<le> lineNo pos
               then Inl (IndexOutOfRange (lineNo pos) (length lines))
               else
                 let line = strings_ReplaceAll (lines ! nat (lineNo pos));
                     b = fold (\<lambda>l b. int64 (b - (1 + int (length l))))
                           (take (nat (lineNo pos)) lines) (byteNo pos)
                 in if b < 0 \<or> int (length line) < b
                    then Inl (SliceOutOfRange b (length line))
                    else
                      let runeCount = utf8_RuneCountInString (take (nat b) line);
                          padding = replicate runeCount (CHR '' '')
                      in Inr (errorFromCode (code r)
                                (msg r @ Sprintf_query (1 + lineNo pos) (1 + int runeCount)
                                           line padding hintmsg)))"

subsection \<open>The aggregate\<close>

text \<open>
  \<open>Error()\<close> of an aggregate is its \<open>msg\<close> field; the \<open>Error()\<close> methods of the other error types
  are declared outside these files and are the parameter \<open>ext\<close>.
\<close>

definition Error :: "('x error \<Rightarrow> string) \<Rightarrow> 'x error \<Rightarrow> string" where
  "Error ext e = (case e of wrappedManyError m es \<Rightarrow> m | _ \<Rightarrow> ext e)"

text \<open>
  \<open>errors.Is\<close> and \<open>errors.As\<close> on a constituent are library calls that run the constituent's
  own methods: parameters that take the constituent, the target and the world (which holds what
  \<open>As\<close> stores through its target pointer), and return the verdict and the new world.
\<close>

fun wrappedManyError_Is ::
  "('x error \<Rightarrow> 't \<Rightarrow> 'w \<Rightarrow> bool \<times> 'w) \<Rightarrow> 'x error list \<Rightarrow> 't \<Rightarrow> 'w \<Rightarrow> bool \<times> 'w" where
  "wrappedManyError_Is errors_Is [] target w = (False, w)"
| "wrappedManyError_Is errors_Is (e # es) target w =
     (case errors_Is e target w of
        (True, w') \<Rightarrow> (True, w')
      | (False, w') \<Rightarrow> wrappedManyError_Is errors_Is es target w')"

fun wrappedManyError_As ::
  "('x error \<Rightarrow> 't \<Rightarrow> 'w \<Rightarrow> bool \<times> 'w) \<Rightarrow> 'x error list \<Rightarrow> 't \<Rightarrow> 'w \<Rightarrow> bool \<times> 'w" where
  "wrappedManyError_As errors_As [] target w = (False, w)"
| "wrappedManyError_As errors_As (e # es) target w =
     (case errors_As e target w of
        (True, w') \<Rightarrow> (True, w')
      | (False, w') \<Rightarrow> wrappedManyError_As errors_As es target w')"

definition wrapAll :: "('x error \<Rightarrow> string) \<Rightarrow> 'x error option list \<Rightarrow> 'x error option" where
  "wrapAll ext errs =
     (let es = fold (\<lambda>e acc. case e of None \<Rightarrow> acc | Some x \<Rightarrow> acc @ [x]) errs []
      in if length es = 0 then None
         else if length es = 1 then Some (es ! 0)
         else Some (wrappedManyError
                      (fold (\<lambda>e m. m @ ''; '' @ Error ext e) (drop 1 es) (Error ext (es ! 0)))
                      es))"

section \<open>Notions used to state the properties\<close>

text \<open>\<open>strings.Contains\<close>: the second string occurs in the first.\<close>

fun strings_Contains :: "string \<Rightarrow> string \<Rightarrow> bool" where
  "strings_Contains [] substr = (substr = [])"
| "strings_Contains (c # s) substr =
     (take (length substr) (c # s) = substr \<or> strings_Contains s substr)"

text \<open>The error a borrowed connection answers with, by the reason it is borrowed for.\<close>

definition borrowError :: "string \<Rightarrow> 'x error" where
  "borrowError r =
     interfaceError (if r = ''transaction'' then borrowedForTransaction
                     else borrowedForSubtransaction)"

text \<open>\<open>Release\<close> called \<open>n\<close> times in a row on one handle: the errors returned, in order.\<close>

fun releases ::
  "('p \<Rightarrow> 'c option \<Rightarrow> 'x error option \<Rightarrow> 'w \<Rightarrow> 'x error option \<times> 'w) \<Rightarrow>
     ('p, 'c, 'x) poolConn \<Rightarrow> 'w \<Rightarrow> nat \<Rightarrow> 'x error option list \<times> ('p, 'c, 'x) poolConn \<times> 'w" where
  "releases pool_release c w 0 = ([], c, w)"
| "releases pool_release c w (Suc n) =
     (case Release pool_release c w of
        (e, c', w') \<Rightarrow>
          (case releases pool_release c' w' n of (es, c'', w'') \<Rightarrow> (e # es, c'', w'')))"

text \<open>
  Sample collaborators for concrete runs: three kinds of foreign errors, the classifiers over
  them, and a wrapped connection whose methods return, call after call, the errors listed in
  the world.
\<close>

datatype sampleError = permanentNetError | temporaryNetError | serverError string

definition sampleClassifiers :: "(sampleError, string) classifiers" where
  "sampleClassifiers =
     \<lparr>IsPermanentNetErr = (\<lambda>e. e = Some (otherError permanentNetError)),
      AsError = (\<lambda>e. case e of otherError (serverError cat) \<Rightarrow> Some cat | _ \<Rightarrow> None),
      Category = (\<lambda>cat c. cat = c),
      UnexpectedMessageError = ''errors::UnexpectedMessageError''\<rparr>"

definition nextError :: "'x error option list \<Rightarrow> 'x error option \<times> 'x error option list" where
  "nextError w = (case w of [] \<Rightarrow> (None, []) | e # rest \<Rightarrow> (e, rest))"

definition scriptedConn ::
  "(unit, unit, unit, unit, 'x, 'x error option list) connMethods" where
  "scriptedConn =
     \<lparr>conn_Execute = (\<lambda>k cmd. nextError),
      conn_Query = (\<lambda>k cmd out args. nextError),
      conn_QueryOne = (\<lambda>k cmd out args. nextError),
      conn_QueryJSON = (\<lambda>k cmd out args. nextError),
      conn_QueryOneJSON = (\<lambda>k cmd out args. nextError),
      conn_TryTx = (\<lambda>k action. nextError),
      conn_Retry = (\<lambda>k action. nextError)\<rparr>"

definition freshHandle :: "(unit, unit, sampleError) poolConn" where
  "freshHandle = \<lparr>pool = Some (), err = None, conn = Some ()\<rparr>"

text \<open>\<open>strings.Join\<close>: the elements, with the separator between consecutive ones.\<close>

fun strings_Join :: "string list \<Rightarrow> string \<Rightarrow> string" where
  "strings_Join [] sep = []"
| "strings_Join [x] sep = x"
| "strings_Join (x # y # rest) sep = x @ sep @ strings_Join (y # rest) sep"

text \<open>The non-nil errors of a list, in order.\<close>

definition nonNil :: "'a option list \<Rightarrow> 'a list" where
  "nonNil errs = List.map_filter (\<lambda>e. e) errs"

text \<open>
  A sample \<open>errors.Is\<close> for concrete runs: a constituent matches when it equals the target, and
  every consultation is logged in the world.
\<close>

definition loggedIs :: "'x error \<Rightarrow> 'x error \<Rightarrow> 'x error list \<Rightarrow> bool \<times> 'x error list" where
  "loggedIs e target w = (e = target, w @ [e])"

text \<open>A sample \<open>Error()\<close> for the foreign error types of concrete runs.\<close>

definition sampleMessage :: "string error \<Rightarrow> string" where
  "sampleMessage e = (case e of otherError s \<Rightarrow> s | interfaceError s \<Rightarrow> s | _ \<Rightarrow> [])"

text \<open>
  The bytes that precede line \<open>n\<close> of a text split into \<open>lines\<close>: each earlier line and its
  newline.
\<close>

definition precedingBytes :: "string list \<Rightarrow> nat \<Rightarrow> nat" where
  "precedingBytes lines n = sum_list (map (\<lambda>l. 1 + length l) (take n lines))"

text \<open>
  Well-formed UTF-8, as the Unicode standard defines it: \<open>utf8_first\<close> reads the scalar value
  encoded at the head of a byte string and the number of bytes of its encoding; \<open>utf8_decode\<close>
  reads a whole byte string as a sequence of scalar values, when it is one.
\<close>

definition continuation :: "nat \<Rightarrow> bool" where
  "continuation b = (0x80 \<le> b \<and> b \<le> 0xBF)"

definition secondLow :: "nat \<Rightarrow> nat" where
  "secondLow b0 = (if b0 = 0xE0 then 0xA0 else if b0 = 0xF0 then 0x90 else 0x80)"

definition secondHigh :: "nat \<Rightarrow> nat" where
  "secondHigh b0 = (if b0 = 0xED then 0x9F else if b0 = 0xF4 then 0x8F else 0xBF)"

definition utf8_first :: "string \<Rightarrow> (nat \<times> nat) option" where
  "utf8_first s =
     (case s of
        [] \<Rightarrow> None
      | c0 # r \<Rightarrow>
          let b0 = byte c0 in
          if b0 < 0x80 then Some (b0, 1)
          else if 0xC2 \<le> b0 \<and> b0 \<le> 0xDF then
            (case r of
               c1 # _ \<Rightarrow>
                 if continuation (byte c1)
                 then Some ((b0 - 0xC0) * 64 + (byte c1 - 0x80), 2) else None
             | _ \<Rightarrow> None)
          else if 0xE0 \<le> b0 \<and> b0 \<le> 0xEF then
            (case r of
               c1 # c2 # _ \<Rightarrow>
                 if secondLow b0 \<le> byte c1 \<and> byte c1 \<le> secondHigh b0 \<and> continuation (byte c2)
                 then Some (((b0 - 0xE0) * 64 + (byte c1 - 0x80)) * 64 + (byte c2 - 0x80), 3)
                 else None
             | _ \<Rightarrow> None)
          else if 0xF0 \<le> b0 \<and> b0 \<le> 0xF4 then
            (case r of
               c1 # c2 # c3 # _ \<Rightarrow>
                 if secondLow b0 \<le> byte c1 \<and> byte c1 \<le> secondHigh b0 \<and>
                    continuation (byte c2) \<and> continuation (byte c3)
                 then Some ((((b0 - 0xF0) * 64 + (byte c1 - 0x80)) * 64 + (byte c2 - 0x80)) * 64 +
                            (byte c3 - 0x80), 4)
                 else None
             | _ \<Rightarrow> None)
          else None)"

fun utf8_decode :: "string \<Rightarrow> nat list option" where
  "utf8_decode [] = Some []"
| "utf8_decode (c # rest) =
     (case utf8_first (c # rest) of
        None \<Rightarrow> None
      | Some (scalar, n) \<Rightarrow>
          (case utf8_decode (drop (n - 1) rest) of
             None \<Rightarrow> None
           | Some scalars \<Rightarrow> Some (scalar # scalars)))"

text \<open>A sample error response for concrete runs, with the two position headers.\<close>

definition sampleResponse :: "string \<Rightarrow> string \<Rightarrow> errorResponse" where
  "sampleResponse ln bn =
     \<lparr>severity = 120, code = 1, msg = ''oops'',
      headerList = [(lineStart, ln), (positionStart, bn)]\<rparr>"

definition euro :: string where
  "euro = [CHR 0xE2, CHR 0x82, CHR 0xAC]"

text \<open>
  The composed message as the specification words it: the original message, then a blank line,
  then \<open>query:<line>:<column>\<close>, then the source line, then a line of \<open>n\<close> spaces followed by
  \<open>^\<close> and the hint.
\<close>

definition messageAsSpecified ::
  "string \<Rightarrow> int \<Rightarrow> int \<Rightarrow> string \<Rightarrow> nat \<Rightarrow> string \<Rightarrow> string" where
  "messageAsSpecified m l col line n hintmsg =
     m @ [newline] @
     [newline] @
     ''query:'' @ formatInt l @ '':'' @ formatInt col @ [newline] @
     line @ [newline] @
     replicate n (CHR '' '') @ ''^'' @ hintmsg"

section \<open>Properties of the borrow guard\<close>

lemma mentions_transaction: "strings_Contains borrowedForTransaction ''transaction''"
  by (simp add: borrowedForTransaction_def)

lemma mentions_subtransaction: "strings_Contains borrowedForSubtransaction ''subtransaction''"
  by (simp add: borrowedForSubtransaction_def)

text \<open>
  C3. On an unborrowed connection, \<open>borrow\<close> for a transaction or a subtransaction succeeds,
  sets the reason and returns the underlying connection. A second \<open>borrow\<close> of either kind then
  fails with the interface error that names the blocking borrow (its message contains
  "transaction", respectively "subtransaction") and leaves the reason as it was. \<open>unborrow\<close>
  resets the reason, after which \<open>borrow\<close> of either kind succeeds again.
\<close>

theorem borrow_cycle:
  assumes "reason c = ''''"
    and "r1 = ''transaction'' \<or> r1 = ''subtransaction''"
    and "r2 = ''transaction'' \<or> r2 = ''subtransaction''"
  shows "borrow c r1 = (Return (Some (baseConn c), None :: 'x error option), c\<lparr>reason := r1\<rparr>) \<and>
         borrow (c\<lparr>reason := r1\<rparr>) r2 =
           (Return (None :: 'b option, Some (interfaceError
              (if r1 = ''transaction'' then borrowedForTransaction
               else borrowedForSubtransaction) :: 'x error)),
            c\<lparr>reason := r1\<rparr>) \<and>
         strings_Contains borrowedForTransaction ''transaction'' \<and>
         strings_Contains borrowedForSubtransaction ''subtransaction'' \<and>
         unborrow (c\<lparr>reason := r1\<rparr>) = (Return (), c) \<and>
         borrow (snd (unborrow (c\<lparr>reason := r1\<rparr>))) r2 =
           (Return (Some (baseConn c), None :: 'x error option), c\<lparr>reason := r2\<rparr>)"
proof -
  have c: "c\<lparr>reason := ''''\<rparr> = c" using assms(1) by simp
  have u: "unborrow (c\<lparr>reason := r1\<rparr>) = (Return (), c)"
    using assms(2) c by (auto simp: unborrow_def)
  show ?thesis
    using assms mentions_transaction mentions_subtransaction u by (auto simp: borrow_def)
qed

theorem borrow_cycle_witness:
  "reason \<lparr>baseConn = 7::nat, reason = ''''\<rparr> = '''' \<and>
   borrow \<lparr>baseConn = 7::nat, reason = ''''\<rparr> ''transaction'' =
     (Return (Some 7, None :: unit error option), \<lparr>baseConn = 7, reason = ''transaction''\<rparr>) \<and>
   borrow \<lparr>baseConn = 7::nat, reason = ''transaction''\<rparr> ''subtransaction'' =
     (Return (None, Some (interfaceError borrowedForTransaction :: unit error)),
      \<lparr>baseConn = 7, reason = ''transaction''\<rparr>) \<and>
   unborrow \<lparr>baseConn = 7::nat, reason = ''transaction''\<rparr> =
     (Return (), \<lparr>baseConn = 7, reason = ''''\<rparr>) \<and>
   borrow (snd (unborrow \<lparr>baseConn = 7::nat, reason = ''transaction''\<rparr>)) ''subtransaction'' =
     (Return (Some 7, None :: unit error option), \<lparr>baseConn = 7, reason = ''subtransaction''\<rparr>)"
  using borrow_cycle [where 'x = unit, of "\<lparr>baseConn = 7::nat, reason = ''''\<rparr>"
      "''transaction''" "''subtransaction''"]
  by (simp add: borrow_def)

text \<open>
  C4. \<open>assertUnborrowed\<close> leaves the receiver as it was, whatever it answers. While the
  connection is borrowed for a transaction or a subtransaction, the script flow and the granular
  flow, and with them \<open>Execute\<close>, \<open>Query\<close>, \<open>QueryOne\<close>, \<open>QueryJSON\<close> and \<open>QueryOneJSON\<close>, return the
  borrow error with the receiver and the world unchanged, whatever the flows of the underlying
  connection are: these are not invoked.
\<close>

theorem borrowed_guard:
  "snd (assertUnborrowed c :: 'x error option outcome \<times> 'b borrowableConn) = c \<and>
   (reason c = ''transaction'' \<or> reason c = ''subtransaction'' \<longrightarrow>
      assertUnborrowed c = (Return (Some (borrowError (reason c) :: 'x error)), c) \<and>
      scriptFlow sf c q w = (Return (Some (borrowError (reason c) :: 'x error)), c, w) \<and>
      granularFlow gf c q' w = (Return (Some (borrowError (reason c) :: 'x error)), c, w) \<and>
      borrowableConn_Execute sf' hdrs c cmd w =
        (Return (Some (borrowError (reason c) :: 'x error)), c, w) \<and>
      borrowableConn_Query gf nq hdrs' c cmd out args w =
        (Return (Some (borrowError (reason c))), c, w) \<and>
      borrowableConn_QueryOne gf nq hdrs' c cmd out args w =
        (Return (Some (borrowError (reason c))), c, w) \<and>
      borrowableConn_QueryJSON gf nq hdrs' c cmd out args w =
        (Return (Some (borrowError (reason c))), c, w) \<and>
      borrowableConn_QueryOneJSON gf nq hdrs' c cmd out args w =
        (Return (Some (borrowError (reason c))), c, w))"
  by (auto simp: assertUnborrowed_def scriptFlow_def granularFlow_def borrowError_def
      borrowableConn_Execute_def borrowableConn_Query_def borrowableConn_QueryOne_def
      borrowableConn_QueryJSON_def borrowableConn_QueryOneJSON_def runQuery_def)

theorem borrowed_guard_witness:
  "reason \<lparr>baseConn = 7::nat, reason = ''transaction''\<rparr> = ''transaction'' \<and>
   snd (assertUnborrowed \<lparr>baseConn = 7::nat, reason = ''transaction''\<rparr> ::
          unit error option outcome \<times> nat borrowableConn) =
     \<lparr>baseConn = 7, reason = ''transaction''\<rparr> \<and>
   scriptFlow (\<lambda>b q w. (None, Suc w)) \<lparr>baseConn = 7::nat, reason = ''transaction''\<rparr> ''q'' (0::nat) =
     (Return (Some (interfaceError borrowedForTransaction :: unit error)),
      \<lparr>baseConn = 7, reason = ''transaction''\<rparr>, 0) \<and>
   granularFlow (\<lambda>b q w. (None, Suc w)) \<lparr>baseConn = 7::nat, reason = ''transaction''\<rparr> ''q'' (0::nat) =
     (Return (Some (interfaceError borrowedForTransaction :: unit error)),
      \<lparr>baseConn = 7, reason = ''transaction''\<rparr>, 0) \<and>
   borrowableConn_Execute (\<lambda>b q w. (None, Suc w)) () \<lparr>baseConn = 7::nat, reason = ''transaction''\<rparr>
       ''select 1'' (0::nat) =
     (Return (Some (interfaceError borrowedForTransaction :: unit error)),
      \<lparr>baseConn = 7, reason = ''transaction''\<rparr>, 0) \<and>
   borrowableConn_Query (\<lambda>b q w. (None, Suc w)) (\<lambda>m c (out::unit) (a::unit list) (h::unit). c) ()
       \<lparr>baseConn = 7::nat, reason = ''transaction''\<rparr> ''select 1'' () [] (0::nat) =
     (Return (Some (interfaceError borrowedForTransaction :: unit error)),
      \<lparr>baseConn = 7, reason = ''transaction''\<rparr>, 0)"
  using borrowed_guard [where 'x = unit, of "\<lparr>baseConn = 7::nat, reason = ''transaction''\<rparr>"
      "\<lambda>b q w. (None, Suc w)" "''q''" "0::nat" "\<lambda>b q w. (None, Suc w)" "''q''"
      "\<lambda>b q w. (None, Suc w)" "()" "''select 1''"
      "\<lambda>m c (out::unit) (a::unit list) (h::unit). c" "()" "()" "[]"]
  by (simp add: borrowError_def)

section \<open>Properties of the pool handle\<close>

lemma releases_released:
  "pool c = None \<Longrightarrow>
   releases rel c w n =
     (replicate n (Some (interfaceError ''connection released more than once'')), c, w)"
  by (induction n) (simp_all add: Release_def)

text \<open>
  C1. On a handle that still has its pool, \<open>Release\<close> applies the pool's release routine once,
  to the connection and the recorded health error, returns what the routine returns and clears
  the three fields. \<open>Release\<close> on the cleared handle returns the "released more than once"
  interface error and changes neither the handle nor the world, whatever the routine is. So
  \<open>n + 1\<close> calls in a row apply the routine once: the world is the one the first call left.
\<close>

theorem Release_once:
  fixes c :: "('p, 'c, 'x) poolConn" and w :: 'w
  assumes "pool c = Some p" and "rel p (conn c) (err c) w = (e, w')"
  shows "Release rel c w = (e, \<lparr>pool = None, err = None, conn = None\<rparr>, w') \<and>
         Release rel' (\<lparr>pool = None, err = None, conn = None\<rparr> :: ('p, 'c, 'x) poolConn) (w'' :: 'w) =
           (Some (interfaceError ''connection released more than once''),
            \<lparr>pool = None, err = None, conn = None\<rparr>, w'') \<and>
         releases rel c w (Suc n) =
           (e # replicate n (Some (interfaceError ''connection released more than once'')),
            \<lparr>pool = None, err = None, conn = None\<rparr>, w')"
proof -
  have r: "Release rel c w = (e, \<lparr>pool = None, err = None, conn = None\<rparr>, w')"
    using assms by (simp add: Release_def)
  have "releases rel \<lparr>pool = None, err = None, conn = None\<rparr> w' n =
          (replicate n (Some (interfaceError ''connection released more than once'')),
           \<lparr>pool = None, err = None, conn = None\<rparr>, w')"
    by (rule releases_released) simp
  then show ?thesis using r by (simp add: Release_def)
qed

theorem Release_once_witness:
  "pool \<lparr>pool = Some (1::nat), err = Some (otherError ''x''), conn = Some (2::nat)\<rparr> = Some 1 \<and>
   releases (\<lambda>p k h log. (None, log @ [(p, k, h)]))
     \<lparr>pool = Some (1::nat), err = Some (otherError ''x''), conn = Some (2::nat)\<rparr> [] (Suc 2) =
     ([None, Some (interfaceError ''connection released more than once''),
       Some (interfaceError ''connection released more than once'')],
      \<lparr>pool = None, err = None, conn = None\<rparr>,
      [(1, Some 2, Some (otherError ''x''))])"
  using Release_once [of "\<lparr>pool = Some (1::nat), err = Some (otherError ''x''), conn = Some (2::nat)\<rparr>"
      1 "\<lambda>p k h log. (None, log @ [(p, k, h)])" "[]" None "[(1, Some 2, Some (otherError ''x''))]"
      "\<lambda>p k h log. (None, log @ [(p, k, h)])" "[]" 2]
  by (simp add: numeral_2_eq_2 del: releases.simps)

lemma checkErr_fields:
  "pool (checkErr K c e) = pool c \<and> conn (checkErr K c e) = conn c \<and>
   err (checkErr K c e) = (if impairing K e then e else err c)"
  by (simp add: checkErr_def impairing_def split: option.splits)

lemma perform_checkErr:
  "perform K M c x w = (e, c', w') \<Longrightarrow> c' = checkErr K c e"
  by (cases x)
    (auto simp: poolConn_Execute_def poolConn_Query_def poolConn_QueryOne_def
      poolConn_QueryJSON_def poolConn_QueryOneJSON_def poolConn_TryTx_def poolConn_Retry_def
      split: prod.splits)

lemma performAll_foldl:
  "performAll K M c xs w = (es, c', w') \<Longrightarrow> c' = foldl (checkErr K) c es"
proof (induction xs arbitrary: c w es c' w')
  case Nil
  then show ?case by simp
next
  case (Cons x xs)
  obtain e c1 w1 where p: "perform K M c x w = (e, c1, w1)"
    by (cases "perform K M c x w") auto
  obtain es1 c2 w2 where q: "performAll K M c1 xs w1 = (es1, c2, w2)"
    by (cases "performAll K M c1 xs w1") auto
  from Cons.prems p q have "es = e # es1" and "c' = c2" by auto
  moreover have "c2 = foldl (checkErr K) c1 es1" using Cons.IH [OF q] .
  moreover have "c1 = checkErr K c e" using perform_checkErr [OF p] .
  ultimately show ?case by simp
qed

lemma foldl_checkErr_fields:
  "pool (foldl (checkErr K) c es) = pool c \<and> conn (foldl (checkErr K) c es) = conn c \<and>
   err (foldl (checkErr K) c es) =
     (case find (impairing K) (rev es) of None \<Rightarrow> err c | Some e \<Rightarrow> e)"
  by (induction es rule: rev_induct) (simp_all add: checkErr_fields)

text \<open>
  C2. A handle is checked out with no recorded error. After any sequence of operations, \<open>Release\<close>
  passes the recorded error to the pool's release routine. If some operation returned an error
  that is a permanent network failure or is in the "unexpected message" category, the recorded
  error is not nil; if no operation did (each returned nil or an error of another class), it is
  nil. The classifier of network failures is assumed not to take a nil error for a failure.
\<close>

theorem health_error_at_release:
  fixes c :: "('p, 'c, 'x) poolConn" and w :: 'w
  assumes "\<not> IsPermanentNetErr K None" and "err c = None" and "pool c = Some p"
    and "performAll K M c calls w = (es, c', w')"
  shows "Release rel c' w' =
           (case rel p (conn c) (err c') w' of
              (r, w'') \<Rightarrow> (r, \<lparr>pool = None, err = None, conn = None\<rparr>, w'')) \<and>
         ((\<exists>e \<in> set es. impairing K e) \<longrightarrow> err c' \<noteq> None) \<and>
         ((\<forall>e \<in> set es. \<not> impairing K e) \<longrightarrow> err c' = None)"
proof -
  have c': "c' = foldl (checkErr K) c es" using performAll_foldl [OF assms(4)] .
  have f: "pool c' = Some p" "conn c' = conn c"
    "err c' = (case find (impairing K) (rev es) of None \<Rightarrow> None | Some e \<Rightarrow> e)"
    using foldl_checkErr_fields [of K c es] assms(2,3) c' by (simp_all split: option.splits)
  have nil: "\<not> impairing K None"
    using assms(1) by (simp add: impairing_def errors_As_Error_def)
  have rel: "Release rel c' w' =
           (case rel p (conn c) (err c') w' of
              (r, w'') \<Rightarrow> (r, \<lparr>pool = None, err = None, conn = None\<rparr>, w''))"
    using f(1,2) by (simp add: Release_def split: prod.splits)
  have some: "(\<exists>e \<in> set es. impairing K e) \<longrightarrow> err c' \<noteq> None"
  proof
    assume "\<exists>e \<in> set es. impairing K e"
    then obtain e where "find (impairing K) (rev es) = Some e"
      by (cases "find (impairing K) (rev es)") (auto simp: find_None_iff)
    moreover from this have "impairing K e" by (auto simp: find_Some_iff)
    ultimately show "err c' \<noteq> None" using f(3) nil by (cases e) auto
  qed
  have none: "(\<forall>e \<in> set es. \<not> impairing K e) \<longrightarrow> err c' = None"
  proof
    assume "\<forall>e \<in> set es. \<not> impairing K e"
    then have "find (impairing K) (rev es) = None" by (simp add: find_None_iff)
    then show "err c' = None" using f(3) by simp
  qed
  show ?thesis using rel some none by blast
qed

text \<open>
  C9, as amended. After any sequence of operations, the recorded health error is the one
  returned by the last operation whose error was health-impairing (a permanent network failure
  or in the "unexpected message" category): each such error replaces the recorded one, and
  errors of other classes leave it as it is.
\<close>

theorem last_impairing_error_recorded:
  assumes "performAll K M c calls w = (es, c', w')"
  shows "err c' = (case find (impairing K) (rev es) of None \<Rightarrow> err c | Some e \<Rightarrow> e)"
  using performAll_foldl [OF assms] foldl_checkErr_fields [of K c es] by simp

lemmas sample_run =
  sampleClassifiers_def scriptedConn_def freshHandle_def nextError_def poolConn_Execute_def
  poolConn_Query_def poolConn_QueryOne_def poolConn_QueryJSON_def poolConn_QueryOneJSON_def
  poolConn_TryTx_def poolConn_Retry_def checkErr_def errors_As_Error_def impairing_def

theorem health_error_at_release_witness:
  "\<not> IsPermanentNetErr sampleClassifiers None \<and> err freshHandle = None \<and>
   pool freshHandle = Some () \<and>
   performAll sampleClassifiers scriptedConn freshHandle
     [CallExecute ''select 1'', CallQueryOne ''select 2'' () []]
     [Some (otherError permanentNetError), Some (otherError (serverError ''errors::NoDataError''))] =
     ([Some (otherError permanentNetError), Some (otherError (serverError ''errors::NoDataError''))],
      \<lparr>pool = Some (), err = Some (otherError permanentNetError), conn = Some ()\<rparr>, []) \<and>
   Release (\<lambda>p k h w. (None, w @ [h]))
     \<lparr>pool = Some (), err = Some (otherError permanentNetError), conn = Some ()\<rparr> [] =
     (None, \<lparr>pool = None, err = None, conn = None\<rparr>, [Some (otherError permanentNetError)]) \<and>
   performAll sampleClassifiers scriptedConn freshHandle
     [CallQueryOne ''select 2'' () [], CallExecute ''select 1'']
     [Some (otherError (serverError ''errors::NoDataError'')), None] =
     ([Some (otherError (serverError ''errors::NoDataError'')), None], freshHandle, []) \<and>
   Release (\<lambda>p k h w. (None, w @ [h])) freshHandle [] =
     (None, \<lparr>pool = None, err = None, conn = None\<rparr>, [None])"
  using health_error_at_release [of sampleClassifiers freshHandle "()" scriptedConn
      "[CallExecute ''select 1'', CallQueryOne ''select 2'' () []]"
      "[Some (otherError permanentNetError), Some (otherError (serverError ''errors::NoDataError''))]"
      "[Some (otherError permanentNetError), Some (otherError (serverError ''errors::NoDataError''))]"
      "\<lparr>pool = Some (), err = Some (otherError permanentNetError), conn = Some ()\<rparr>" "[]"
      "\<lambda>p k h w. (None, w @ [h])"]
    health_error_at_release [of sampleClassifiers freshHandle "()" scriptedConn
      "[CallQueryOne ''select 2'' () [], CallExecute ''select 1'']"
      "[Some (otherError (serverError ''errors::NoDataError'')), None]"
      "[Some (otherError (serverError ''errors::NoDataError'')), None]"
      freshHandle "[]" "\<lambda>p k h w. (None, w @ [h])"]
  by (simp add: sample_run Release_def)

text \<open>
  C9, as stated, fails: two operations return two different health-impairing errors; after the
  first the recorded error is the first one, after the second it is the second one.
\<close>

theorem first_error_wins_counterexample:
  "impairing sampleClassifiers (Some (otherError permanentNetError)) \<and>
   impairing sampleClassifiers (Some (otherError (serverError ''errors::UnexpectedMessageError''))) \<and>
   performAll sampleClassifiers scriptedConn freshHandle
     [CallExecute ''select 1'']
     [Some (otherError permanentNetError),
      Some (otherError (serverError ''errors::UnexpectedMessageError''))] =
     ([Some (otherError permanentNetError)],
      \<lparr>pool = Some (), err = Some (otherError permanentNetError), conn = Some ()\<rparr>,
      [Some (otherError (serverError ''errors::UnexpectedMessageError''))]) \<and>
   performAll sampleClassifiers scriptedConn freshHandle
     [CallExecute ''select 1'', CallExecute ''select 2'']
     [Some (otherError permanentNetError),
      Some (otherError (serverError ''errors::UnexpectedMessageError''))] =
     ([Some (otherError permanentNetError),
       Some (otherError (serverError ''errors::UnexpectedMessageError''))],
      \<lparr>pool = Some (),
       err = Some (otherError (serverError ''errors::UnexpectedMessageError'')),
       conn = Some ()\<rparr>,
      []) \<and>
   Some (otherError (serverError ''errors::UnexpectedMessageError'')) \<noteq>
     Some (otherError permanentNetError)"
  by (simp add: sample_run)

theorem last_impairing_error_recorded_witness:
  "performAll sampleClassifiers scriptedConn freshHandle
     [CallExecute ''select 1'', CallExecute ''select 2'', CallRetry ()]
     [Some (otherError permanentNetError),
      Some (otherError (serverError ''errors::UnexpectedMessageError'')),
      Some (otherError temporaryNetError)] =
     ([Some (otherError permanentNetError),
       Some (otherError (serverError ''errors::UnexpectedMessageError'')),
       Some (otherError temporaryNetError)],
      \<lparr>pool = Some (),
       err = Some (otherError (serverError ''errors::UnexpectedMessageError'')),
       conn = Some ()\<rparr>,
      []) \<and>
   err \<lparr>pool = Some (),
       err = Some (otherError (serverError ''errors::UnexpectedMessageError'')),
       conn = Some ()\<rparr> =
   (case find (impairing sampleClassifiers)
           (rev [Some (otherError permanentNetError),
                 Some (otherError (serverError ''errors::UnexpectedMessageError'')),
                 Some (otherError temporaryNetError)]) of
      None \<Rightarrow> err freshHandle
    | Some e \<Rightarrow> e)"
  using last_impairing_error_recorded [of sampleClassifiers scriptedConn freshHandle
      "[CallExecute ''select 1'', CallExecute ''select 2'', CallRetry ()]"
      "[Some (otherError permanentNetError),
        Some (otherError (serverError ''errors::UnexpectedMessageError'')),
        Some (otherError temporaryNetError)]"
      "[Some (otherError permanentNetError),
        Some (otherError (serverError ''errors::UnexpectedMessageError'')),
        Some (otherError temporaryNetError)]"
      "\<lparr>pool = Some (),
        err = Some (otherError (serverError ''errors::UnexpectedMessageError'')),
        conn = Some ()\<rparr>" "[]"]
  by (simp add: sample_run)

section \<open>Properties of the aggregate\<close>

lemma collect_nonNil:
  "fold (\<lambda>e acc. case e of None \<Rightarrow> acc | Some x \<Rightarrow> acc @ [x]) errs acc = acc @ nonNil errs"
  by (induction errs arbitrary: acc) (auto simp: nonNil_def List.map_filter_simps split: option.splits)

lemma join_fold:
  "fold (\<lambda>e m. m @ sep @ f e) es (m0 @ f x) = m0 @ strings_Join (map f (x # es)) sep"
proof (induction es arbitrary: m0 x)
  case Nil
  then show ?case by simp
next
  case (Cons y ys)
  have "fold (\<lambda>e m. m @ sep @ f e) (y # ys) (m0 @ f x) =
        fold (\<lambda>e m. m @ sep @ f e) ys ((m0 @ f x @ sep) @ f y)"
    by simp
  also have "\<dots> = (m0 @ f x @ sep) @ strings_Join (map f (y # ys)) sep"
    by (rule Cons.IH)
  finally show ?case by simp
qed

lemma Is_miss_then:
  "wrappedManyError_Is isf xs t w = (False, w1) \<Longrightarrow>
   wrappedManyError_Is isf (xs @ ys) t w = wrappedManyError_Is isf ys t w1"
  by (induction xs arbitrary: w) (auto split: prod.splits bool.splits)

lemma As_miss_then:
  "wrappedManyError_As asf xs t w = (False, w1) \<Longrightarrow>
   wrappedManyError_As asf (xs @ ys) t w = wrappedManyError_As asf ys t w1"
  by (induction xs arbitrary: w) (auto split: prod.splits bool.splits)

lemma Is_any:
  "\<forall>e \<in> set es. \<forall>w. fst (isf e t w) = P e \<Longrightarrow>
   fst (wrappedManyError_Is isf es t w) = (\<exists>e \<in> set es. P e)"
  by (induction es arbitrary: w) (auto split: prod.splits bool.splits, (metis fst_conv)+)

lemma As_any:
  "\<forall>e \<in> set es. \<forall>w. fst (asf e t w) = P e \<Longrightarrow>
   fst (wrappedManyError_As asf es t w) = (\<exists>e \<in> set es. P e)"
  by (induction es arbitrary: w) (auto split: prod.splits bool.splits, (metis fst_conv)+)

text \<open>
  C5. \<open>wrapAll\<close> drops the nil errors; with none left it returns nil, with exactly one left it
  returns that error itself, and with two or more it returns an aggregate of them in input order
  whose message is their messages joined by "; ". The membership tests of an aggregate consult
  the constituents in order: when the constituents before one all miss and that one matches, the
  test answers true with the world as that constituent left it, whatever follows it in the list;
  and when the verdicts do not depend on the world, the test is true exactly when some
  constituent matches.
\<close>

theorem wrapAll_aggregate:
  fixes errs :: "'x error option list" and isf asf :: "'x error \<Rightarrow> 't \<Rightarrow> 'w \<Rightarrow> bool \<times> 'w"
  shows "wrapAll ext errs =
           (case nonNil errs of
              [] \<Rightarrow> None
            | [e] \<Rightarrow> Some e
            | es \<Rightarrow> Some (wrappedManyError (strings_Join (map (Error ext) es) ''; '') es)) \<and>
         Error ext (wrappedManyError m es) = m \<and>
         (wrappedManyError_Is isf xs t w = (False, w1) \<and> isf e t w1 = (True, w2) \<longrightarrow>
            wrappedManyError_Is isf (xs @ e # ys) t w = (True, w2)) \<and>
         (wrappedManyError_As asf xs t w = (False, w1) \<and> asf e t w1 = (True, w2) \<longrightarrow>
            wrappedManyError_As asf (xs @ e # ys) t w = (True, w2)) \<and>
         ((\<forall>e \<in> set es. \<forall>w. fst (isf e t w) = P e) \<longrightarrow>
            fst (wrappedManyError_Is isf es t w) = (\<exists>e \<in> set es. P e)) \<and>
         ((\<forall>e \<in> set es. \<forall>w. fst (asf e t w) = P e) \<longrightarrow>
            fst (wrappedManyError_As asf es t w) = (\<exists>e \<in> set es. P e))"
proof -
  have es: "fold (\<lambda>e acc. case e of None \<Rightarrow> acc | Some x \<Rightarrow> acc @ [x]) errs [] = nonNil errs"
    using collect_nonNil [of errs "[]"] by simp
  have w: "wrapAll ext errs =
           (case nonNil errs of
              [] \<Rightarrow> None
            | [e] \<Rightarrow> Some e
            | es \<Rightarrow> Some (wrappedManyError (strings_Join (map (Error ext) es) ''; '') es))"
  proof (cases "nonNil errs")
    case Nil
    then show ?thesis by (simp add: wrapAll_def es)
  next
    case (Cons x xs)
    show ?thesis
    proof (cases xs)
      case Nil
      then show ?thesis using Cons by (simp add: wrapAll_def es)
    next
      case (Cons y ys)
      have "fold (\<lambda>e m. m @ ''; '' @ Error ext e) xs ([] @ Error ext x) =
            [] @ strings_Join (map (Error ext) (x # xs)) ''; ''"
        by (rule join_fold)
      then show ?thesis using Cons \<open>nonNil errs = x # xs\<close> by (simp add: wrapAll_def es)
    qed
  qed
  have i: "wrappedManyError_Is isf xs t w = (False, w1) \<and> isf e t w1 = (True, w2) \<longrightarrow>
            wrappedManyError_Is isf (xs @ e # ys) t w = (True, w2)"
    using Is_miss_then [of isf xs t w w1 "e # ys"] by auto
  have a: "wrappedManyError_As asf xs t w = (False, w1) \<and> asf e t w1 = (True, w2) \<longrightarrow>
            wrappedManyError_As asf (xs @ e # ys) t w = (True, w2)"
    using As_miss_then [of asf xs t w w1 "e # ys"] by auto
  show ?thesis using w i a Is_any [of es isf t P w] As_any [of es asf t P w]
    by (simp add: Error_def)
qed

theorem wrapAll_aggregate_witness:
  "wrapAll sampleMessage
     [None, Some (otherError ''a''), None, Some (interfaceError ''b''), Some (otherError ''c'')] =
     Some (wrappedManyError ''a; b; c'' [otherError ''a'', interfaceError ''b'', otherError ''c'']) \<and>
   wrappedManyError_Is loggedIs [otherError ''a''] (interfaceError ''b'') [] =
     (False, [otherError ''a'']) \<and>
   loggedIs (interfaceError ''b'') (interfaceError ''b'') [otherError ''a''] =
     (True, [otherError ''a'', interfaceError ''b'']) \<and>
   wrappedManyError_Is loggedIs [otherError ''a'', interfaceError ''b'', otherError ''c'']
     (interfaceError ''b'') [] = (True, [otherError ''a'', interfaceError ''b'']) \<and>
   wrappedManyError_As loggedIs [otherError ''a'', interfaceError ''b'', otherError ''c'']
     (interfaceError ''b'') [] = (True, [otherError ''a'', interfaceError ''b'']) \<and>
   fst (wrappedManyError_Is loggedIs [otherError ''a'', interfaceError ''b'', otherError ''c'']
     (interfaceError ''b'') []) = True \<and>
   fst (wrappedManyError_Is loggedIs [otherError ''a'', interfaceError ''b'', otherError ''c'']
     (interfaceError ''d'') []) = False"
  using wrapAll_aggregate [where
      ext = sampleMessage and
      errs = "[None, Some (otherError ''a''), None, Some (interfaceError ''b''), Some (otherError ''c'')]" and
      m = "''a; b; c''" and
      es = "[otherError ''a'', interfaceError ''b'', otherError ''c'']" and
      isf = loggedIs and asf = loggedIs and xs = "[otherError ''a'']" and
      t = "interfaceError ''b''" and w = "[]" and ?w1.0 = "[otherError ''a'']" and
      e = "interfaceError ''b''" and ?w2.0 = "[otherError ''a'', interfaceError ''b'']" and
      ys = "[otherError ''c'']" and P = "\<lambda>e. e = interfaceError ''b''"]
  by (simp add: loggedIs_def nonNil_def List.map_filter_simps sampleMessage_def Error_def)

section \<open>Properties of the decoder\<close>

lemma readHeaders_lookup:
  "readHeaders hl m k = (case map_of (rev hl) k of None \<Rightarrow> m k | Some v \<Rightarrow> Some v)"
  by (induction hl arbitrary: m) (auto split: option.splits)

lemma readHeaders_missing:
  assumes "k \<notin> fst ` set hl"
  shows "readHeaders hl Map.empty k = None"
proof -
  have "map_of (rev hl) k = None" using assms by (simp add: map_of_eq_None_iff)
  then show ?thesis by (simp add: readHeaders_lookup)
qed

lemma positionFromHeaders_missing:
  assumes "hs lineStart = None \<or> hs positionStart = None"
  shows "positionFromHeaders hs = Inr (\<lparr>lineNo = 0, byteNo = 0\<rparr>, False)"
  using assms by (auto simp: positionFromHeaders_def split: option.splits)

text \<open>
  C7. When the error response has no line-start header or no position-start header,
  \<open>decodeError\<close> returns the error that \<open>errorFromCode\<close> makes from the code and the
  message as received: nothing is appended to the message, and nothing panics.
\<close>

theorem decodeError_without_position:
  assumes "lineStart \<notin> fst ` set (headerList r) \<or> positionStart \<notin> fst ` set (headerList r)"
  shows "decodeError errorFromCode r query = Inr (errorFromCode (code r) (msg r))"
proof -
  have "readHeaders (headerList r) Map.empty lineStart = None \<or>
        readHeaders (headerList r) Map.empty positionStart = None"
    using assms readHeaders_missing [of lineStart "headerList r"]
      readHeaders_missing [of positionStart "headerList r"] by argo
  then have "positionFromHeaders (readHeaders (headerList r) Map.empty) =
             Inr (\<lparr>lineNo = 0, byteNo = 0\<rparr>, False)"
    by (rule positionFromHeaders_missing)
  then show ?thesis
    by (simp add: decodeError_def)
qed

theorem decodeError_without_position_witness:
  "lineStart \<notin> fst ` set [(hint, ''check the name''), (positionStart, ''7'')] \<and>
   decodeError Pair
     \<lparr>severity = 120, code = 1, msg = ''oops'',
      headerList = [(hint, ''check the name''), (positionStart, ''7'')]\<rparr>
     ''SELECT x'' = Inr (1, ''oops'')"
  using decodeError_without_position [of
      "\<lparr>severity = 120, code = 1, msg = ''oops'',
        headerList = [(hint, ''check the name''), (positionStart, ''7'')]\<rparr>" Pair "''SELECT x''"]
  by (simp add: lineStart_def hint_def positionStart_def)

lemma Atoi_range:
  assumes "strconv_Atoi s = Some v"
  shows "- (2 ^ 63) \<le> v \<and> v < 2 ^ 63"
proof -
  obtain neg ds where nd:
    "(case s of [] \<Rightarrow> (False, [])
      | c # r \<Rightarrow> if c = CHR ''-'' then (True, r) else if c = CHR ''+'' then (False, r)
                 else (False, s)) = (neg, ds)"
    by (cases "(case s of [] \<Rightarrow> (False, [])
      | c # r \<Rightarrow> if c = CHR ''-'' then (True, r) else if c = CHR ''+'' then (False, r)
                 else (False, s))") auto
  show ?thesis
    using assms unfolding strconv_Atoi_def nd Let_def
    by (simp split: if_splits)
qed

lemma int64_id: "- (2 ^ 63) \<le> x \<Longrightarrow> x < 2 ^ 63 \<Longrightarrow> int64 x = x"
  by (simp add: int64_def)

lemma int64_below:
  assumes "- (2 ^ 63) - 2 ^ 64 \<le> x" and "x < - (2 ^ 63)"
  shows "int64 x = x + 2 ^ 64"
proof -
  have "(x + 2 ^ 63) mod 2 ^ 64 = (x + 2 ^ 63 + 2 ^ 64) mod 2 ^ 64"
    by (simp only: mod_add_self2)
  also have "\<dots> = x + 2 ^ 63 + 2 ^ 64" using assms by (intro mod_pos_pos_trivial) simp_all
  finally show ?thesis by (simp add: int64_def)
qed

lemma int64_sub: "int64 (int64 x - y) = int64 (x - y)"
proof -
  have "((x + 2 ^ 63) mod 2 ^ 64 - y) mod 2 ^ 64 = (x + 2 ^ 63 - y) mod (2 ^ 64 :: int)"
    by (rule mod_diff_left_eq)
  then show ?thesis by (simp add: int64_def algebra_simps)
qed

lemma int64_idem: "int64 (int64 x) = int64 x"
  using int64_sub [of x 0] by simp

lemma offset_fold:
  "fold (\<lambda>l b. int64 (b - (1 + int (length l)))) ls (int64 b) =
   int64 (b - int (sum_list (map (\<lambda>l. 1 + length l) ls)))"
proof (induction ls arbitrary: b)
  case Nil
  then show ?case by simp
next
  case (Cons l ls)
  have "fold (\<lambda>l b. int64 (b - (1 + int (length l)))) (l # ls) (int64 b) =
        fold (\<lambda>l b. int64 (b - (1 + int (length l)))) ls (int64 (b - (1 + int (length l))))"
    by (simp add: int64_sub)
  also have "\<dots> = int64 (b - (1 + int (length l)) - int (sum_list (map (\<lambda>l. 1 + length l) ls)))"
    by (rule Cons.IH)
  finally show ?case by (simp add: algebra_simps)
qed

lemma strings_Split_nonempty: "strings_Split q \<noteq> []"
  by (induction q) (auto split: list.splits)

lemma strings_Split_bytes:
  "sum_list (map (\<lambda>l. 1 + length l) (strings_Split q)) = length q + 1"
proof (induction q)
  case Nil
  then show ?case by simp
next
  case (Cons c cs)
  then show ?case
    using strings_Split_nonempty [of cs] by (cases "strings_Split cs") auto
qed

lemma sum_take_nth:
  fixes f :: "'a \<Rightarrow> nat"
  assumes "n < length xs"
  shows "sum_list (map f (take n xs)) + f (xs ! n) \<le> sum_list (map f xs)"
proof -
  have "xs = take n xs @ xs ! n # drop (Suc n) xs" using assms by (rule id_take_nth_drop)
  then have "sum_list (map f xs) =
             sum_list (map f (take n xs)) + f (xs ! n) + sum_list (map f (drop (Suc n) xs))"
    by (metis add.assoc map_append list.simps(9) sum_list.Cons sum_list.append)
  then show ?thesis by simp
qed

lemma line_within_query:
  assumes "n < length (strings_Split q)"
  shows "precedingBytes (strings_Split q) n + length (strings_Split q ! n) \<le> length q"
  using sum_take_nth [OF assms, of "\<lambda>l. 1 + length l"] strings_Split_bytes [of q]
  by (simp add: precedingBytes_def)

lemma strings_Split_length: "length (strings_Split q) \<le> length q + 1"
proof -
  have "length xs \<le> sum_list (map (\<lambda>l. 1 + length l) xs)" for xs :: "string list"
    by (induction xs) auto
  then show ?thesis using strings_Split_bytes [of q] by metis
qed

lemma positionFromHeaders_both:
  assumes "hs lineStart = Some ln" and "hs positionStart = Some bn"
    and "strconv_Atoi ln = Some l" and "strconv_Atoi bn = Some b"
  shows "positionFromHeaders hs = Inr (\<lparr>lineNo = int64 (l - 1), byteNo = b\<rparr>, True)"
  using assms by (simp add: positionFromHeaders_def atoiOrPanic_def)

lemma decodeError_positioned:
  assumes "positionFromHeaders (readHeaders (headerList r) Map.empty) =
             Inr (\<lparr>lineNo = n, byteNo = b\<rparr>, True)"
    and "lines = strings_Split q"
    and "off = fold (\<lambda>l b. int64 (b - (1 + int (length l)))) (take (nat n) lines) b"
    and "line = strings_ReplaceAll (lines ! nat n)"
    and "rc = utf8_RuneCountInString (take (nat off) line)"
    and "hintmsg = (case readHeaders (headerList r) Map.empty hint of
                      None \<Rightarrow> ''error'' | Some h \<Rightarrow> h)"
  shows "decodeError efc r q =
           (if n < 0 \<or> int (length lines) \<le> n then Inl (IndexOutOfRange n (length lines))
            else if off < 0 \<or> int (length line) < off then Inl (SliceOutOfRange off (length line))
            else Inr (efc (code r)
                        (msg r @ Sprintf_query (1 + n) (1 + int rc) line
                                   (replicate rc (CHR '' '')) hintmsg)))"
  using assms by (simp add: decodeError_def Let_def)

lemma decodeError_position_path:
  assumes h: "readHeaders (headerList r) Map.empty lineStart = Some ln"
      "readHeaders (headerList r) Map.empty positionStart = Some bn"
    and a: "strconv_Atoi ln = Some l" "strconv_Atoi bn = Some b"
    and len: "int (length q) + 1 < 2 ^ 63"
    and lines: "lines = strings_Split q"
    and start: "start = int (precedingBytes lines (nat (l - 1)))"
    and line: "line = strings_ReplaceAll (lines ! nat (l - 1))"
    and rc: "rc = utf8_RuneCountInString (take (nat (b - start)) line)"
    and hintmsg: "hintmsg = (case readHeaders (headerList r) Map.empty hint of
                      None \<Rightarrow> ''error'' | Some h \<Rightarrow> h)"
  shows "decodeError efc r q =
           (if l < 1 \<or> int (length lines) < l
            then Inl (IndexOutOfRange (int64 (l - 1)) (length lines))
            else if b < start \<or> start + int (length line) < b
            then Inl (SliceOutOfRange (int64 (b - start)) (length line))
            else Inr (efc (code r)
                        (msg r @ Sprintf_query l (1 + int rc) line
                                   (replicate rc (CHR '' '')) hintmsg)))"
proof -
  have lr: "- (2 ^ 63) \<le> l" "l < 2 ^ 63" and br: "- (2 ^ 63) \<le> b" "b < 2 ^ 63"
    using Atoi_range [OF a(1)] Atoi_range [OF a(2)] by simp_all
  have nl: "int (length lines) < 2 ^ 63"
    using strings_Split_length [of q] len lines by simp
  define off where "off = fold (\<lambda>l b. int64 (b - (1 + int (length l))))
                            (take (nat (int64 (l - 1))) lines) b"
  define line' where "line' = strings_ReplaceAll (lines ! nat (int64 (l - 1)))"
  define rc' where "rc' = utf8_RuneCountInString (take (nat off) line')"
  have pfh: "positionFromHeaders (readHeaders (headerList r) Map.empty) =
             Inr (\<lparr>lineNo = int64 (l - 1), byteNo = b\<rparr>, True)"
    using h a by (rule positionFromHeaders_both)
  note unfolded = decodeError_positioned [OF pfh lines off_def line'_def rc'_def hintmsg, of efc]
  show ?thesis
  proof (cases "l < 1 \<or> int (length lines) < l")
    case True
    have "int64 (l - 1) < 0 \<or> int (length lines) \<le> int64 (l - 1)"
    proof (cases "- (2 ^ 63) \<le> l - 1")
      case True
      then have "int64 (l - 1) = l - 1" using lr by (intro int64_id) simp_all
      then show ?thesis using \<open>l < 1 \<or> int (length lines) < l\<close> by auto
    next
      case False
      then have "int64 (l - 1) = l - 1 + 2 ^ 64" using lr by (intro int64_below) simp_all
      then show ?thesis using lr nl by simp
    qed
    then show ?thesis using True unfolded by simp
  next
    case False
    then have l: "1 \<le> l" "l \<le> int (length lines)" by simp_all
    then have n: "int64 (l - 1) = l - 1" using lr by (intro int64_id) simp_all
    have inr: "nat (l - 1) < length lines" using l by simp
    have off: "off = int64 (b - start)"
      using offset_fold [of "take (nat (l - 1)) lines" b] int64_id [OF br]
      by (simp add: off_def n start precedingBytes_def)
    have line': "line' = line" by (simp add: line'_def line n)
    have ll: "length line = length (lines ! nat (l - 1))"
      by (simp add: line strings_ReplaceAll_def)
    have within: "start + int (length line) \<le> int (length q)" and s0: "0 \<le> start"
      using line_within_query [of "nat (l - 1)" q] inr lines ll start by simp_all
    show ?thesis
    proof (cases "b < start \<or> start + int (length line) < b")
      case True
      have "off < 0 \<or> int (length line) < off"
      proof (cases "- (2 ^ 63) \<le> b - start")
        case True
        then have "int64 (b - start) = b - start" using br s0 by (intro int64_id) simp_all
        then show ?thesis using \<open>b < start \<or> start + int (length line) < b\<close> off by auto
      next
        case False
        have "- (2 ^ 63) - 2 ^ 64 \<le> b - start" using br within len by simp
        then have "int64 (b - start) = b - start + 2 ^ 64"
          using False by (intro int64_below) simp_all
        then show ?thesis using off br within len by simp
      qed
      then show ?thesis using True False unfolded n off line' by simp
    next
      case False
      then have "- (2 ^ 63) \<le> b - start" "b - start < 2 ^ 63" using br s0 by simp_all
      then have bs: "int64 (b - start) = b - start" by (rule int64_id)
      have "\<not> (off < 0 \<or> int (length line) < off)" using False off bs by simp
      moreover have "rc' = rc" by (simp add: rc'_def rc off bs line')
      ultimately show ?thesis
        using False \<open>\<not> (l < 1 \<or> int (length lines) < l)\<close> unfolded n line' l
        by simp
    qed
  qed
qed

lemma runeWidth_wellformed:
  assumes "utf8_first (c # rest) = Some (scalar, n)"
  shows "runeWidth c rest = n"
proof (cases "byte c < 0x80")
  case True
  then show ?thesis using assms by (simp add: utf8_first_def runeWidth_def Let_def)
next
  case False
  note hi = False
  show ?thesis
  proof (cases "0xC2 \<le> byte c \<and> byte c \<le> 0xDF")
    case True
    then obtain c1 r1 where r: "rest = c1 # r1" and k: "continuation (byte c1)" and n: "n = 2"
      using assms hi by (auto simp: utf8_first_def Let_def split: list.splits if_splits)
    show ?thesis using True hi r k n
      by (simp add: runeWidth_def firstByte_def continuation_def)
  next
    case False
    note not2 = False
    show ?thesis
    proof (cases "0xE0 \<le> byte c \<and> byte c \<le> 0xEF")
      case True
      then obtain c1 c2 r2 where r: "rest = c1 # c2 # r2"
        and k: "secondLow (byte c) \<le> byte c1" "byte c1 \<le> secondHigh (byte c)"
          "continuation (byte c2)" and n: "n = 3"
        using assms hi not2 by (auto simp: utf8_first_def Let_def split: list.splits if_splits)
      have f: "firstByte (byte c) = Some (3, secondLow (byte c), secondHigh (byte c))"
        using True by (auto simp: firstByte_def secondLow_def secondHigh_def)
      show ?thesis using hi r k n f
        by (simp add: runeWidth_def continuation_def)
    next
      case False
      then have four: "0xF0 \<le> byte c \<and> byte c \<le> 0xF4"
        using assms hi not2 by (auto simp: utf8_first_def Let_def split: list.splits if_splits)
      then obtain c1 c2 c3 r3 where r: "rest = c1 # c2 # c3 # r3"
        and k: "secondLow (byte c) \<le> byte c1" "byte c1 \<le> secondHigh (byte c)"
          "continuation (byte c2)" "continuation (byte c3)" and n: "n = 4"
        using assms hi not2 False
        by (auto simp: utf8_first_def Let_def split: list.splits if_splits)
      have f: "firstByte (byte c) = Some (4, secondLow (byte c), secondHigh (byte c))"
        using four by (auto simp: firstByte_def secondLow_def secondHigh_def)
      show ?thesis using hi r k n f
        by (simp add: runeWidth_def continuation_def)
    qed
  qed
qed

lemma RuneCount_wellformed:
  "utf8_decode s = Some scalars \<Longrightarrow> utf8_RuneCountInString s = length scalars"
proof (induction s arbitrary: scalars rule: utf8_decode.induct)
  case 1
  then show ?case by simp
next
  case (2 c rest)
  from "2.prems" obtain scalar n tl where
    f: "utf8_first (c # rest) = Some (scalar, n)" and
    d: "utf8_decode (drop (n - 1) rest) = Some tl" and s: "scalars = scalar # tl"
    by (auto split: option.splits)
  have w: "runeWidth c rest = n" using f by (rule runeWidth_wellformed)
  have "utf8_RuneCountInString (drop (n - 1) rest) = length tl"
    using "2.IH" f d by simp
  then show ?case using w s by simp
qed


lemma decodeError_atoi_panics:
  assumes "readHeaders (headerList r) Map.empty lineStart = Some ln"
    and "readHeaders (headerList r) Map.empty positionStart = Some bn"
    and "strconv_Atoi ln = None \<or> strconv_Atoi bn = None"
  shows "\<exists>p. decodeError efc r q = Inl p"
proof -
  have "\<exists>p. positionFromHeaders (readHeaders (headerList r) Map.empty) = Inl p"
    using assms by (auto simp: positionFromHeaders_def atoiOrPanic_def split: option.splits)
  then obtain p where "positionFromHeaders (readHeaders (headerList r) Map.empty) = Inl p" ..
  then have "decodeError efc r q = Inl p" by (simp add: decodeError_def)
  then show ?thesis ..
qed

text \<open>The definitions a run of the decoder on a concrete input unfolds.\<close>

lemmas decoder_run =
  sampleResponse_def decodeError_def positionFromHeaders_def atoiOrPanic_def strconv_Atoi_def
  isDigit_def digitsValue_def byte_def lineStart_def positionStart_def hint_def newline_def tab_def
  int64_def strings_ReplaceAll_def Sprintf_query_def formatInt_def decimal.simps runeWidth_def
  firstByte_def euro_def Let_def digits_def

lemmas atoi_run = strconv_Atoi_def isDigit_def digitsValue_def byte_def Let_def

lemmas format_run = Sprintf_query_def formatInt_def decimal.simps digits_def

lemmas utf8_run =
  utf8_first_def continuation_def secondLow_def secondHigh_def runeWidth_def firstByte_def
  byte_def euro_def Let_def

text \<open>
  C10. Take an error response with both position headers and a query whose length fits Go's
  \<open>int\<close>. When the headers are numbers \<open>l\<close> and \<open>b\<close>: if \<open>l\<close> exceeds the number of lines of
  the query, \<open>decodeError\<close> panics on indexing the lines; if \<open>l\<close> names a line of the query and
  \<open>b\<close>, less the bytes of the preceding lines and their newlines, falls before the start or
  beyond the end of that line, it panics on slicing the line. It returns an error value exactly
  when both headers are numbers that point inside the query text: \<open>1 \<le> l \<le>\<close> number of lines,
  and \<open>b\<close> between the first byte of line \<open>l\<close> and the byte after its last.
\<close>

theorem decodeError_outside_query_panics:
  assumes h: "readHeaders (headerList r) Map.empty lineStart = Some ln"
      "readHeaders (headerList r) Map.empty positionStart = Some bn"
    and len: "int (length q) + 1 < 2 ^ 63"
    and lines: "lines = strings_Split q"
  shows "(strconv_Atoi ln = Some l \<and> strconv_Atoi bn = Some b \<and> int (length lines) < l \<longrightarrow>
            decodeError efc r q = Inl (IndexOutOfRange (l - 1) (length lines))) \<and>
         (strconv_Atoi ln = Some l \<and> strconv_Atoi bn = Some b \<and>
          1 \<le> l \<and> l \<le> int (length lines) \<and>
          (b < int (precedingBytes lines (nat (l - 1))) \<or>
           int (precedingBytes lines (nat (l - 1))) + int (length (lines ! nat (l - 1))) < b) \<longrightarrow>
            decodeError efc r q =
              Inl (SliceOutOfRange (int64 (b - int (precedingBytes lines (nat (l - 1)))))
                     (length (lines ! nat (l - 1))))) \<and>
         ((\<exists>e. decodeError efc r q = Inr e) \<longleftrightarrow>
          (\<exists>l b. strconv_Atoi ln = Some l \<and> strconv_Atoi bn = Some b \<and>
             1 \<le> l \<and> l \<le> int (length lines) \<and>
             int (precedingBytes lines (nat (l - 1))) \<le> b \<and>
             b \<le> int (precedingBytes lines (nat (l - 1))) + int (length (lines ! nat (l - 1)))))"
proof -
  have path: "decodeError efc r q =
           (if l < 1 \<or> int (length lines) < l
            then Inl (IndexOutOfRange (int64 (l - 1)) (length lines))
            else if b < int (precedingBytes lines (nat (l - 1))) \<or>
                    int (precedingBytes lines (nat (l - 1))) +
                      int (length (strings_ReplaceAll (lines ! nat (l - 1)))) < b
            then Inl (SliceOutOfRange (int64 (b - int (precedingBytes lines (nat (l - 1)))))
                        (length (strings_ReplaceAll (lines ! nat (l - 1)))))
            else Inr (efc (code r)
                        (msg r @ Sprintf_query l
                           (1 + int (utf8_RuneCountInString
                              (take (nat (b - int (precedingBytes lines (nat (l - 1)))))
                                 (strings_ReplaceAll (lines ! nat (l - 1))))))
                           (strings_ReplaceAll (lines ! nat (l - 1)))
                           (replicate (utf8_RuneCountInString
                              (take (nat (b - int (precedingBytes lines (nat (l - 1)))))
                                 (strings_ReplaceAll (lines ! nat (l - 1)))))
                              (CHR '' ''))
                           (case readHeaders (headerList r) Map.empty hint of
                              None \<Rightarrow> ''error'' | Some h \<Rightarrow> h))))"
    if "strconv_Atoi ln = Some l" and "strconv_Atoi bn = Some b" for l b
    using decodeError_position_path [OF h that len lines refl refl refl refl] .
  have rl: "length (strings_ReplaceAll x) = length x" for x
    by (simp add: strings_ReplaceAll_def)
  have one: "strconv_Atoi ln = Some l \<and> strconv_Atoi bn = Some b \<and> int (length lines) < l \<longrightarrow>
            decodeError efc r q = Inl (IndexOutOfRange (l - 1) (length lines))"
  proof (intro impI, elim conjE)
    assume a: "strconv_Atoi ln = Some l" "strconv_Atoi bn = Some b" and big: "int (length lines) < l"
    have "int64 (l - 1) = l - 1" using Atoi_range [OF a(1)] big by (intro int64_id) simp_all
    then show "decodeError efc r q = Inl (IndexOutOfRange (l - 1) (length lines))"
      using path [OF a] big by simp
  qed
  have two: "strconv_Atoi ln = Some l \<and> strconv_Atoi bn = Some b \<and>
          1 \<le> l \<and> l \<le> int (length lines) \<and>
          (b < int (precedingBytes lines (nat (l - 1))) \<or>
           int (precedingBytes lines (nat (l - 1))) + int (length (lines ! nat (l - 1))) < b) \<longrightarrow>
            decodeError efc r q =
              Inl (SliceOutOfRange (int64 (b - int (precedingBytes lines (nat (l - 1)))))
                     (length (lines ! nat (l - 1))))"
  proof (intro impI, elim conjE)
    assume a: "strconv_Atoi ln = Some l" "strconv_Atoi bn = Some b"
      and l: "1 \<le> l" "l \<le> int (length lines)"
      and out: "b < int (precedingBytes lines (nat (l - 1))) \<or>
           int (precedingBytes lines (nat (l - 1))) + int (length (lines ! nat (l - 1))) < b"
    show "decodeError efc r q =
              Inl (SliceOutOfRange (int64 (b - int (precedingBytes lines (nat (l - 1)))))
                     (length (lines ! nat (l - 1))))"
      using path [OF a] l out by (simp add: rl)
  qed
  have three: "(\<exists>e. decodeError efc r q = Inr e) \<longleftrightarrow>
          (\<exists>l b. strconv_Atoi ln = Some l \<and> strconv_Atoi bn = Some b \<and>
             1 \<le> l \<and> l \<le> int (length lines) \<and>
             int (precedingBytes lines (nat (l - 1))) \<le> b \<and>
             b \<le> int (precedingBytes lines (nat (l - 1))) + int (length (lines ! nat (l - 1))))"
  proof
    assume ret: "\<exists>e. decodeError efc r q = Inr e"
    have "\<not> (strconv_Atoi ln = None \<or> strconv_Atoi bn = None)"
    proof
      assume "strconv_Atoi ln = None \<or> strconv_Atoi bn = None"
      then have "\<exists>p. decodeError efc r q = Inl p" by (rule decodeError_atoi_panics [OF h])
      then show False using ret by auto
    qed
    then have "strconv_Atoi ln \<noteq> None \<and> strconv_Atoi bn \<noteq> None" by simp
    then obtain l b where a: "strconv_Atoi ln = Some l" "strconv_Atoi bn = Some b" by auto
    have "1 \<le> l \<and> l \<le> int (length lines) \<and>
             int (precedingBytes lines (nat (l - 1))) \<le> b \<and>
             b \<le> int (precedingBytes lines (nat (l - 1))) + int (length (lines ! nat (l - 1)))"
      using path [OF a] ret by (auto simp: rl split: if_splits)
    then show "\<exists>l b. strconv_Atoi ln = Some l \<and> strconv_Atoi bn = Some b \<and>
             1 \<le> l \<and> l \<le> int (length lines) \<and>
             int (precedingBytes lines (nat (l - 1))) \<le> b \<and>
             b \<le> int (precedingBytes lines (nat (l - 1))) + int (length (lines ! nat (l - 1)))"
      using a by blast
  next
    assume "\<exists>l b. strconv_Atoi ln = Some l \<and> strconv_Atoi bn = Some b \<and>
             1 \<le> l \<and> l \<le> int (length lines) \<and>
             int (precedingBytes lines (nat (l - 1))) \<le> b \<and>
             b \<le> int (precedingBytes lines (nat (l - 1))) + int (length (lines ! nat (l - 1)))"
    then obtain l b where a: "strconv_Atoi ln = Some l" "strconv_Atoi bn = Some b"
      and i: "1 \<le> l" "l \<le> int (length lines)"
        "int (precedingBytes lines (nat (l - 1))) \<le> b"
        "b \<le> int (precedingBytes lines (nat (l - 1))) + int (length (lines ! nat (l - 1)))"
      by blast
    show "\<exists>e. decodeError efc r q = Inr e"
      using path [OF a] i by (simp add: rl)
  qed
  show ?thesis using one two three by blast
qed

theorem decodeError_outside_query_panics_witness:
  "readHeaders (headerList (sampleResponse ''2'' ''7'')) Map.empty lineStart = Some ''2'' \<and>
   readHeaders (headerList (sampleResponse ''2'' ''7'')) Map.empty positionStart = Some ''7'' \<and>
   strings_Split (''SELECT 1'' @ [newline] @ ''SELECT x'') = [''SELECT 1'', ''SELECT x''] \<and>
   strconv_Atoi ''2'' = Some 2 \<and> strconv_Atoi ''7'' = Some 7 \<and>
   decodeError Pair (sampleResponse ''2'' ''7'') (''SELECT 1'' @ [newline] @ ''SELECT x'') =
     Inl (SliceOutOfRange (- 2) 8)"
  using decodeError_outside_query_panics [of "sampleResponse ''2'' ''7''" "''2''" "''7''"
      "''SELECT 1'' @ [newline] @ ''SELECT x''" "[''SELECT 1'', ''SELECT x'']" 2 7 Pair]
  by (simp add: decoder_run precedingBytes_def)

text \<open>
  C8, as stated, fails: for the message \<open>oops\<close>, the query \<open>SELECT 1\<close>, newline, \<open>SELECT x\<close>,
  line 2 and byte position 11, the code puts a single newline between the message and
  \<open>query:2:3\<close>, the blank line after \<open>query:2:3\<close>, and a space between \<open>^\<close> and the hint; the
  composed message differs from the one the claim lays out.
\<close>

theorem layout_counterexample:
  "decodeError Pair (sampleResponse ''2'' ''11'') (''SELECT 1'' @ [newline] @ ''SELECT x'') =
     Inr (1, ''oops'' @ [newline] @ ''query:2:3'' @ [newline, newline] @ ''SELECT x'' @ [newline] @
             ''  ^ error'') \<and>
   messageAsSpecified ''oops'' 2 3 ''SELECT x'' 2 ''error'' =
     ''oops'' @ [newline, newline] @ ''query:2:3'' @ [newline] @ ''SELECT x'' @ [newline] @
     ''  ^error'' \<and>
   decodeError Pair (sampleResponse ''2'' ''11'') (''SELECT 1'' @ [newline] @ ''SELECT x'') \<noteq>
     Inr (1, messageAsSpecified ''oops'' 2 3 ''SELECT x'' 2 ''error'')"
proof -
  have code: "decodeError Pair (sampleResponse ''2'' ''11'')
                (''SELECT 1'' @ [newline] @ ''SELECT x'') =
     Inr (1, ''oops'' @ [newline] @ ''query:2:3'' @ [newline, newline] @ ''SELECT x'' @ [newline] @
             ''  ^ error'')"
    by (simp add: decoder_run)
  have spec: "messageAsSpecified ''oops'' 2 3 ''SELECT x'' 2 ''error'' =
     ''oops'' @ [newline, newline] @ ''query:2:3'' @ [newline] @ ''SELECT x'' @ [newline] @
     ''  ^error''"
    by (simp add: messageAsSpecified_def formatInt_def decimal.simps digits_def numeral_2_eq_2)
  show ?thesis unfolding code spec by (simp add: newline_def)
qed

text \<open>
  C8, as amended. For an error response whose position headers point inside the query, the
  composed message is: the original message, a newline, \<open>query:<1-based line>:<1-based column>\<close>,
  a blank line, the source line with each tab replaced by one space, and a last line of one space
  per rune counted before the offset (one per preceding scalar value, when the bytes before the
  offset are well-formed UTF-8), then \<open>^\<close>, one space and the hint: the value of the hint
  header, or the word \<open>error\<close> when there is none.
\<close>

theorem decodeError_message_layout:
  assumes h: "readHeaders (headerList r) Map.empty lineStart = Some ln"
      "readHeaders (headerList r) Map.empty positionStart = Some bn"
    and a: "strconv_Atoi ln = Some l" "strconv_Atoi bn = Some b"
    and len: "int (length q) + 1 < 2 ^ 63"
    and lines: "lines = strings_Split q"
    and start: "start = int (precedingBytes lines (nat (l - 1)))"
    and line: "line = strings_ReplaceAll (lines ! nat (l - 1))"
    and rc: "rc = utf8_RuneCountInString (take (nat (b - start)) line)"
    and hintmsg: "hintmsg = (case readHeaders (headerList r) Map.empty hint of
                      None \<Rightarrow> ''error'' | Some h \<Rightarrow> h)"
    and inside: "1 \<le> l" "l \<le> int (length lines)" "start \<le> b" "b \<le> start + int (length line)"
  shows "decodeError efc r q =
           Inr (efc (code r)
                  (msg r @ [newline] @
                   ''query:'' @ formatInt l @ '':'' @ formatInt (1 + int rc) @ [newline] @
                   [newline] @
                   line @ [newline] @
                   replicate rc (CHR '' '') @ ''^ '' @ hintmsg)) \<and>
         line = map (\<lambda>c. if c = tab then CHR '' '' else c) (lines ! nat (l - 1)) \<and>
         (utf8_decode (take (nat (b - start)) line) = Some scalars \<longrightarrow> rc = length scalars)"
proof -
  have "utf8_decode (take (nat (b - start)) line) = Some scalars \<longrightarrow> rc = length scalars"
    using RuneCount_wellformed [of "take (nat (b - start)) line" scalars] rc by simp
  then show ?thesis
    using decodeError_position_path [OF h a len lines start line rc hintmsg, of efc] inside line
    by (simp add: Sprintf_query_def strings_ReplaceAll_def)
qed

theorem decodeError_message_layout_witness:
  "strconv_Atoi ''2'' = Some 2 \<and> strconv_Atoi ''17'' = Some 17 \<and>
   strings_Split (''SELECT 1'' @ [newline] @ [tab] @ ''SELECT x'') =
     [''SELECT 1'', [tab] @ ''SELECT x''] \<and>
   decodeError Pair (sampleResponse ''2'' ''17'') (''SELECT 1'' @ [newline] @ [tab] @ ''SELECT x'') =
     Inr (1, ''oops'' @ [newline] @ ''query:2:9'' @ [newline] @ [newline] @
             '' SELECT x'' @ [newline] @ ''        ^ error'')"
proof -
  have h: "readHeaders (headerList (sampleResponse ''2'' ''17'')) Map.empty lineStart = Some ''2''"
    "readHeaders (headerList (sampleResponse ''2'' ''17'')) Map.empty positionStart = Some ''17''"
    by (simp_all add: sampleResponse_def lineStart_def positionStart_def)
  have a: "strconv_Atoi ''2'' = Some 2" "strconv_Atoi ''17'' = Some 17"
    by (simp_all add: atoi_run)
  have len: "int (length (''SELECT 1'' @ [newline] @ [tab] @ ''SELECT x'')) + 1 < 2 ^ 63"
    by simp
  have lines: "[''SELECT 1'', [tab] @ ''SELECT x''] =
               strings_Split (''SELECT 1'' @ [newline] @ [tab] @ ''SELECT x'')"
    by (simp add: newline_def tab_def)
  have start: "9 = int (precedingBytes [''SELECT 1'', [tab] @ ''SELECT x''] (nat (2 - 1)))"
    by (simp add: precedingBytes_def)
  have line: "'' SELECT x'' =
              strings_ReplaceAll ([''SELECT 1'', [tab] @ ''SELECT x''] ! nat (2 - 1))"
    by (simp add: strings_ReplaceAll_def tab_def)
  have rc: "8 = utf8_RuneCountInString (take (nat (17 - 9)) '' SELECT x'')"
    by (simp add: runeWidth_def byte_def)
  have hintmsg: "''error'' =
       (case readHeaders (headerList (sampleResponse ''2'' ''17'')) Map.empty hint of
          None \<Rightarrow> ''error'' | Some h \<Rightarrow> h)"
    by (simp add: sampleResponse_def lineStart_def positionStart_def hint_def)
  have inside: "1 \<le> (2::int)" "2 \<le> int (length [''SELECT 1'', [tab] @ ''SELECT x''])"
    "9 \<le> (17::int)" "17 \<le> 9 + int (length '' SELECT x'')"
    by simp_all
  from decodeError_message_layout [OF h a len lines start line rc hintmsg inside,
      where efc = Pair and scalars = "[]"]
  have "decodeError Pair (sampleResponse ''2'' ''17'')
          (''SELECT 1'' @ [newline] @ [tab] @ ''SELECT x'') =
        Inr (1, ''oops'' @ [newline] @ ''query:2:9'' @ [newline] @ [newline] @
             '' SELECT x'' @ [newline] @ ''        ^ error'')"
    by (simp add: format_run sampleResponse_def tab_def eval_nat_numeral)
  then show ?thesis using a lines by simp
qed

text \<open>
  C6, as stated, fails: the query is the euro sign alone (one scalar value, three bytes) and
  the position header points at byte 2, inside it. The two bytes before the offset are not
  well-formed UTF-8, the rune count takes each for one rune, and the caret is put at column 3,
  after two spaces: two more than the scalar values that precede the offset on a line that holds
  one scalar value in all.
\<close>

theorem column_counterexample:
  "decodeError Pair (sampleResponse ''1'' ''2'') euro =
     Inr (1, ''oops'' @ [newline] @ ''query:1:3'' @ [newline, newline] @ euro @ [newline] @
             ''  ^ error'') \<and>
   utf8_decode euro = Some [0x20AC] \<and>
   utf8_decode (take 2 euro) = None"
  by (simp add: decoder_run utf8_first_def continuation_def secondLow_def secondHigh_def)


text \<open>
  C6, as amended. The zero-based line number is the line-start header less one, and the byte
  offset in that line is the position-start header less the bytes of every preceding line and
  its newline. When the bytes of the line before that offset are well-formed UTF-8 (the offset
  falls on a character boundary), the caret column is the number of Unicode scalar values they
  encode, not the number of bytes.
\<close>

theorem caret_column_counts_scalar_values:
  assumes h: "readHeaders (headerList r) Map.empty lineStart = Some ln"
      "readHeaders (headerList r) Map.empty positionStart = Some bn"
    and a: "strconv_Atoi ln = Some l" "strconv_Atoi bn = Some b"
    and len: "int (length q) + 1 < 2 ^ 63"
    and lines: "lines = strings_Split q"
    and start: "start = int (precedingBytes lines (nat (l - 1)))"
    and line: "line = strings_ReplaceAll (lines ! nat (l - 1))"
    and hintmsg: "hintmsg = (case readHeaders (headerList r) Map.empty hint of
                      None \<Rightarrow> ''error'' | Some h \<Rightarrow> h)"
    and inside: "1 \<le> l" "l \<le> int (length lines)" "start \<le> b" "b \<le> start + int (length line)"
    and wellformed: "utf8_decode (take (nat (b - start)) line) = Some scalars"
  shows "decodeError efc r q =
           Inr (efc (code r)
                  (msg r @ Sprintf_query l (1 + int (length scalars)) line
                             (replicate (length scalars) (CHR '' '')) hintmsg))"
  using decodeError_position_path [OF h a len lines start line refl hintmsg, of efc] inside
    RuneCount_wellformed [OF wellformed]
  by simp

theorem caret_column_counts_scalar_values_witness:
  "strconv_Atoi ''1'' = Some 1 \<and> strconv_Atoi ''3'' = Some 3 \<and>
   utf8_decode (take 3 (euro @ ''x'')) = Some [0x20AC] \<and>
   decodeError Pair (sampleResponse ''1'' ''3'') (euro @ ''x'') =
     Inr (1, ''oops'' @ [newline] @ ''query:1:2'' @ [newline, newline] @ euro @ ''x'' @ [newline] @
             '' ^ error'')"
proof -
  have h: "readHeaders (headerList (sampleResponse ''1'' ''3'')) Map.empty lineStart = Some ''1''"
    "readHeaders (headerList (sampleResponse ''1'' ''3'')) Map.empty positionStart = Some ''3''"
    by (simp_all add: sampleResponse_def lineStart_def positionStart_def)
  have a: "strconv_Atoi ''1'' = Some 1" "strconv_Atoi ''3'' = Some 3"
    by (simp_all add: atoi_run)
  have len: "int (length (euro @ ''x'')) + 1 < 2 ^ 63"
    by (simp add: euro_def)
  have lines: "[euro @ ''x''] = strings_Split (euro @ ''x'')"
    by (simp add: newline_def euro_def)
  have start: "0 = int (precedingBytes [euro @ ''x''] (nat (1 - 1)))"
    by (simp add: precedingBytes_def)
  have line: "euro @ ''x'' = strings_ReplaceAll ([euro @ ''x''] ! nat (1 - 1))"
    by (simp add: strings_ReplaceAll_def tab_def euro_def)
  have hintmsg: "''error'' =
       (case readHeaders (headerList (sampleResponse ''1'' ''3'')) Map.empty hint of
          None \<Rightarrow> ''error'' | Some h \<Rightarrow> h)"
    by (simp add: sampleResponse_def lineStart_def positionStart_def hint_def)
  have inside: "1 \<le> (1::int)" "1 \<le> int (length [euro @ ''x''])"
    "0 \<le> (3::int)" "3 \<le> 0 + int (length (euro @ ''x''))"
    by (simp_all add: euro_def)
  have wf: "utf8_decode (take (nat (3 - 0)) (euro @ ''x'')) = Some [0x20AC]"
    by (simp add: utf8_run)
  from caret_column_counts_scalar_values [OF h a len lines start line hintmsg inside wf, of Pair]
  have "decodeError Pair (sampleResponse ''1'' ''3'') (euro @ ''x'') =
     Inr (1, ''oops'' @ [newline] @ ''query:1:2'' @ [newline, newline] @ euro @ ''x'' @ [newline] @
             '' ^ error'')"
    by (simp add: format_run sampleResponse_def)
  then show ?thesis using a wf by simp
qed

end
